theory Spec2Isabelle
  imports Complex_Main "HOL-Library.Sublist"
begin

section \<open>Connected-car telemetry server: data model\<close>

text \<open>
  The embedding follows \<^verbatim>\<open>Server.py\<close>. A Python float is the real number it denotes,
  and every floating-point operation of the simulator rounds its exact result to the
  nearest float (see the section on floating-point numbers); a \<^verbatim>\<open>datetime\<close> is the number
  of microseconds since the epoch, which is the resolution Python keeps. Everything the
  code takes from outside (random draws, the clock, fresh identifiers, the outcome of a
  database or socket call) is an explicit input of the function that consumes it.
\<close>

type_synonym datetime = int

datatype exn =
    WebSocketDisconnect
  | ValueError
  | AttributeError
  | HTTPException nat string
  | OtherError string

text \<open>\<^verbatim>\<open>class Vehicle(BaseModel)\<close>\<close>

record vehicle =
  id_v :: string
  name_v :: string
  model_v :: string
  year_v :: int
  license_plate_v :: string
  is_active :: bool
  created_at :: datetime

text \<open>\<^verbatim>\<open>class VehicleCreate(BaseModel)\<close>\<close>

record vehicle_create =
  name_c :: string
  model_c :: string
  year_c :: int
  license_plate_c :: string

text \<open>\<^verbatim>\<open>class TelemetryData(BaseModel)\<close>\<close>

record telemetry_data =
  id_t :: string
  vehicle_id :: string
  speed :: real
  engine_rpm :: real
  fuel_level :: real
  engine_temperature :: real
  latitude :: real
  longitude :: real
  timestamp :: datetime

text \<open>
  \<^verbatim>\<open>class TelemetryAlert(BaseModel)\<close>. The message is an f-string that ends with the
  float it reports; the text before the float and the float itself are kept apart, since
  the decimal printing of a float is not modelled.
\<close>

record telemetry_alert =
  vehicle_id_a :: string
  metric :: string
  value_a :: real
  threshold :: real
  severity :: string
  message :: "string \<times> real"

text \<open>One entry of \<^verbatim>\<open>TELEMETRY_THRESHOLDS\<close>: the dictionary with keys "max" and "min".\<close>

record thresholds =
  thr_max :: real
  thr_min :: real

text \<open>
  The table is a Python dict literal; iterating \<^verbatim>\<open>.items()\<close> yields the entries in the
  order they are written, so it is an association list.
\<close>

definition TELEMETRY_THRESHOLDS :: "(string \<times> thresholds) list" where
  "TELEMETRY_THRESHOLDS =
     [(''speed'', \<lparr>thr_max = 120, thr_min = 0\<rparr>),
      (''engine_rpm'', \<lparr>thr_max = 6000, thr_min = 800\<rparr>),
      (''fuel_level'', \<lparr>thr_max = 100, thr_min = 10\<rparr>),
      (''engine_temperature'', \<lparr>thr_max = 100, thr_min = 80\<rparr>)]"

section \<open>The alert evaluator\<close>

text \<open>\<^verbatim>\<open>getattr(telemetry, metric)\<close> on the float fields; any other name raises.\<close>

definition getattr_telemetry :: "telemetry_data \<Rightarrow> string \<Rightarrow> exn + real" where
  "getattr_telemetry telemetry m =
     (if m = ''speed'' then Inr (speed telemetry)
      else if m = ''engine_rpm'' then Inr (engine_rpm telemetry)
      else if m = ''fuel_level'' then Inr (fuel_level telemetry)
      else if m = ''engine_temperature'' then Inr (engine_temperature telemetry)
      else if m = ''latitude'' then Inr (latitude telemetry)
      else if m = ''longitude'' then Inr (longitude telemetry)
      else Inl AttributeError)"

text \<open>\<^verbatim>\<open>str.replace('_', ' ')\<close> and \<^verbatim>\<open>str.title()\<close> on ASCII text.\<close>

definition lower_letters :: string where
  "lower_letters = ''abcdefghijklmnopqrstuvwxyz''"

definition upper_letters :: string where
  "upper_letters = ''ABCDEFGHIJKLMNOPQRSTUVWXYZ''"

definition is_cased :: "char \<Rightarrow> bool" where
  "is_cased c = (c \<in> set lower_letters \<or> c \<in> set upper_letters)"

definition to_upper :: "char \<Rightarrow> char" where
  "to_upper c = (case map_of (zip lower_letters upper_letters) c of Some u \<Rightarrow> u | None \<Rightarrow> c)"

definition to_lower :: "char \<Rightarrow> char" where
  "to_lower c = (case map_of (zip upper_letters lower_letters) c of Some l \<Rightarrow> l | None \<Rightarrow> c)"

definition replace_char :: "char \<Rightarrow> char \<Rightarrow> string \<Rightarrow> string" where
  "replace_char old new s = map (\<lambda>c. if c = old then new else c) s"

fun title_from :: "bool \<Rightarrow> string \<Rightarrow> string" where
  "title_from prev_cased [] = []"
| "title_from prev_cased (c # cs) =
     (if is_cased c
      then (if prev_cased then to_lower c else to_upper c) # title_from True cs
      else c # title_from False cs)"

definition title :: "string \<Rightarrow> string" where
  "title s = title_from False s"

text \<open>The body of the loop over the table in \<^verbatim>\<open>check_telemetry_alerts\<close>, for one entry.\<close>

definition check_metric :: "telemetry_data \<Rightarrow> string \<Rightarrow> thresholds \<Rightarrow> exn + telemetry_alert list" where
  "check_metric telemetry m th =
     (case getattr_telemetry telemetry m of
        Inl e \<Rightarrow> Inl e
      | Inr v \<Rightarrow>
          if v > thr_max th then
            Inr [\<lparr>vehicle_id_a = vehicle_id telemetry, metric = m, value_a = v,
                  threshold = thr_max th,
                  severity = (if v > thr_max th * 1.2 then ''high'' else ''medium''),
                  message = (title (replace_char CHR ''_'' CHR '' '' m) @ '' is critically high: '', v)\<rparr>]
          else if v < thr_min th then
            Inr [\<lparr>vehicle_id_a = vehicle_id telemetry, metric = m, value_a = v,
                  threshold = thr_min th,
                  severity = (if v < thr_min th * 0.8 then ''high'' else ''medium''),
                  message = (title (replace_char CHR ''_'' CHR '' '' m) @ '' is critically low: '', v)\<rparr>]
          else Inr [])"

fun check_loop :: "telemetry_data \<Rightarrow> (string \<times> thresholds) list \<Rightarrow> telemetry_alert list
    \<Rightarrow> exn + telemetry_alert list" where
  "check_loop telemetry [] alerts = Inr alerts"
| "check_loop telemetry ((m, th) # rest) alerts =
     (case check_metric telemetry m th of
        Inl e \<Rightarrow> Inl e
      | Inr new \<Rightarrow> check_loop telemetry rest (alerts @ new))"

definition check_telemetry_alerts :: "telemetry_data \<Rightarrow> exn + telemetry_alert list" where
  "check_telemetry_alerts telemetry = check_loop telemetry TELEMETRY_THRESHOLDS []"

section \<open>Floating-point numbers\<close>

text \<open>
  A float is a binary64 number: a sign, 53 significant bits and a power of two. The result
  of an operation is its exact result rounded to the nearest float, ties to the even
  significand. For \<open>x\<close> between \<open>2\<^sup>e\<close> and \<open>2\<^sup>e\<^sup>+\<^sup>1\<close> the floats are the multiples of
  \<open>2\<^sup>e\<^sup>-\<^sup>5\<^sup>2\<close>. Overflow, subnormal numbers, NaN and the infinities are not modelled: the
  magnitudes of the simulator stay far from both ends of the range.
\<close>

definition round_half_even :: "real \<Rightarrow> int" where
  "round_half_even x =
     (let f = \<lfloor>x\<rfloor>; r = x - of_int f
      in if r < 1 / 2 then f
         else if r > 1 / 2 then f + 1
         else if even f then f else f + 1)"

definition fl :: "real \<Rightarrow> real" where
  "fl x =
     (if x = 0 then 0
      else (let u = 2 powr (of_int \<lfloor>log 2 \<bar>x\<bar>\<rfloor> - 52)
            in of_int (round_half_even (x / u)) * u))"

section \<open>The telemetry simulator\<close>

text \<open>
  One entry of the dictionary \<^verbatim>\<open>vehicle_states\<close>: the dict built by
  \<^verbatim>\<open>initialize_vehicle_state\<close>, with its eight keys as fields.
\<close>

record vehicle_state =
  st_speed :: real
  st_engine_rpm :: real
  st_fuel_level :: real
  st_engine_temperature :: real
  st_latitude :: real
  st_longitude :: real
  st_direction :: real
  st_last_update :: datetime

text \<open>
  The seven \<^verbatim>\<open>random.uniform\<close> draws of \<^verbatim>\<open>initialize_vehicle_state\<close>, in the order
  they are made, and the clock reading.
\<close>

record init_draws =
  u_speed :: real
  u_engine_rpm :: real
  u_fuel_level :: real
  u_engine_temperature :: real
  u_latitude :: real
  u_longitude :: real
  u_direction :: real
  init_now :: datetime

definition init_draws_ok :: "init_draws \<Rightarrow> bool" where
  "init_draws_ok d =
     (60 \<le> u_speed d \<and> u_speed d \<le> 80 \<and>
      1500 \<le> u_engine_rpm d \<and> u_engine_rpm d \<le> 2500 \<and>
      50 \<le> u_fuel_level d \<and> u_fuel_level d \<le> 100 \<and>
      85 \<le> u_engine_temperature d \<and> u_engine_temperature d \<le> 95 \<and>
      - 0.1 \<le> u_latitude d \<and> u_latitude d \<le> 0.1 \<and>
      - 0.1 \<le> u_longitude d \<and> u_longitude d \<le> 0.1 \<and>
      0 \<le> u_direction d \<and> u_direction d < 360 \<and>
      fl (u_speed d) = u_speed d \<and> fl (u_engine_rpm d) = u_engine_rpm d \<and>
      fl (u_fuel_level d) = u_fuel_level d \<and>
      fl (u_engine_temperature d) = u_engine_temperature d \<and>
      fl (u_direction d) = u_direction d)"

definition initialize_vehicle_state :: "string \<Rightarrow> init_draws \<Rightarrow> vehicle_state" where
  "initialize_vehicle_state vid d =
     (let base_lat = fl 37.7749; base_lng = - fl 122.4194
      in \<lparr>st_speed = u_speed d,
          st_engine_rpm = u_engine_rpm d,
          st_fuel_level = u_fuel_level d,
          st_engine_temperature = u_engine_temperature d,
          st_latitude = fl (base_lat + u_latitude d),
          st_longitude = fl (base_lng + u_longitude d),
          st_direction = u_direction d,
          st_last_update = init_now d\<rparr>)"

text \<open>
  What one call of \<^verbatim>\<open>simulate_realistic_telemetry\<close> takes from outside: the clock, the
  draws \<^verbatim>\<open>random.uniform(-5, 5)\<close>, \<^verbatim>\<open>random.uniform(-200, 200)\<close>, \<^verbatim>\<open>random.random()\<close>
  and \<^verbatim>\<open>random.uniform(-30, 30)\<close> (the last is consumed only when the roll is below 0.1),
  and the fresh identifier of the sample.
\<close>

record step_draws =
  current_time :: datetime
  speed_noise :: real
  rpm_noise :: real
  turn_roll :: real
  turn_delta :: real
  new_id :: string

definition total_seconds :: "int \<Rightarrow> real" where
  "total_seconds micros = fl (of_int micros / 1000000)"

text \<open>\<^verbatim>\<open>math.radians\<close> multiplies by the float constant \<open>\<pi> / 180\<close>.\<close>

definition radians :: "real \<Rightarrow> real" where
  "radians deg = fl (deg * fl (fl pi / 180))"

text \<open>
  C's \<^verbatim>\<open>fmod\<close>: the remainder of the division truncated towards zero, with the sign of the
  dividend.
\<close>

definition fmod :: "real \<Rightarrow> real \<Rightarrow> real" where
  "fmod x m = fl (x - m * of_int (if 0 \<le> x / m then \<lfloor>x / m\<rfloor> else \<lceil>x / m\<rceil>))"

text \<open>
  Python's \<^verbatim>\<open>%\<close> on floats: \<^verbatim>\<open>fmod\<close>, and when the remainder is not zero and its sign
  differs from the divisor's, the divisor is added to it, in floating point.
\<close>

definition py_mod :: "real \<Rightarrow> real \<Rightarrow> real" where
  "py_mod x m =
     (let r = fmod x m
      in if r \<noteq> 0 then (if (m < 0) \<noteq> (r < 0) then fl (r + m) else r) else 0)"

text \<open>
  Python's \<^verbatim>\<open>round(x, ndigits)\<close> on a float: the exact value is rounded to the nearest
  multiple of \<open>10\<^sup>-\<^sup>n\<close>, ties to even, and the result is the float nearest to that.
\<close>

definition py_round :: "real \<Rightarrow> nat \<Rightarrow> real" where
  "py_round x ndigits = fl (of_int (round_half_even (x * 10 ^ ndigits)) / 10 ^ ndigits)"

text \<open>
  The function mutates the dict it is given, block by block, and returns the sample. Each
  commented block of the source is one update of the state here; the model returns the
  final state together with the sample.
\<close>

definition step_speed :: "step_draws \<Rightarrow> real \<Rightarrow> vehicle_state \<Rightarrow> vehicle_state" where
  "step_speed d time_diff state =
     (let speed_change = fl (speed_noise d * time_diff)
      in state\<lparr>st_speed := max 0 (min 140 (fl (st_speed state + speed_change)))\<rparr>)"

definition step_rpm :: "step_draws \<Rightarrow> vehicle_state \<Rightarrow> vehicle_state" where
  "step_rpm d state =
     (let target_rpm = fl (fl (st_speed state * 35) + rpm_noise d)
      in state\<lparr>st_engine_rpm := max 800 (min 6500 target_rpm)\<rparr>)"

definition step_fuel :: "real \<Rightarrow> vehicle_state \<Rightarrow> vehicle_state" where
  "step_fuel time_diff state =
     (let fuel_consumption_rate =
            fl (fl (fl (st_speed state * fl 0.001) + fl (st_engine_rpm state * fl 0.0001))
                * time_diff)
      in state\<lparr>st_fuel_level := max 0 (fl (st_fuel_level state - fuel_consumption_rate))\<rparr>)"

definition step_temperature :: "real \<Rightarrow> vehicle_state \<Rightarrow> vehicle_state" where
  "step_temperature time_diff state =
     (let temp_target = fl (90 + fl (fl (st_engine_rpm state - 2000) * fl 0.005));
          temp_change =
            fl (fl (fl (temp_target - st_engine_temperature state) * fl 0.1) * time_diff)
      in state\<lparr>st_engine_temperature :=
                 max 70 (min 120 (fl (st_engine_temperature state + temp_change)))\<rparr>)"

text \<open>
  The library's \<^verbatim>\<open>cos\<close> and \<^verbatim>\<open>sin\<close> are taken to return the float nearest to the exact
  value.
\<close>

definition step_position :: "real \<Rightarrow> vehicle_state \<Rightarrow> vehicle_state" where
  "step_position time_diff state =
     (let movement_distance = fl (fl (fl (st_speed state * time_diff) / 3600) / 111);
          angle_rad = radians (st_direction state)
      in state\<lparr>st_latitude :=
                 fl (st_latitude state + fl (movement_distance * fl (cos angle_rad))),
               st_longitude :=
                 fl (st_longitude state + fl (movement_distance * fl (sin angle_rad)))\<rparr>)"

definition step_direction :: "step_draws \<Rightarrow> vehicle_state \<Rightarrow> vehicle_state" where
  "step_direction d state =
     (if turn_roll d < fl 0.1
      then state\<lparr>st_direction := py_mod (fl (st_direction state + turn_delta d)) 360\<rparr>
      else state)"

definition make_telemetry :: "string \<Rightarrow> vehicle_state \<Rightarrow> step_draws \<Rightarrow> telemetry_data" where
  "make_telemetry vid state d =
     \<lparr>id_t = new_id d,
      vehicle_id = vid,
      speed = py_round (st_speed state) 1,
      engine_rpm = py_round (st_engine_rpm state) 0,
      fuel_level = py_round (st_fuel_level state) 1,
      engine_temperature = py_round (st_engine_temperature state) 1,
      latitude = py_round (st_latitude state) 6,
      longitude = py_round (st_longitude state) 6,
      timestamp = current_time d\<rparr>"

definition simulate_realistic_telemetry ::
    "string \<Rightarrow> vehicle_state \<Rightarrow> step_draws \<Rightarrow> vehicle_state \<times> telemetry_data" where
  "simulate_realistic_telemetry vid state d =
     (let time_diff = total_seconds (current_time d - st_last_update state);
          state = step_speed d time_diff state;
          state = step_rpm d state;
          state = step_fuel time_diff state;
          state = step_temperature time_diff state;
          state = step_position time_diff state;
          state = step_direction d state;
          state = state\<lparr>st_last_update := current_time d\<rparr>
      in (state, make_telemetry vid state d))"

text \<open>
  The four ranges that every step clamps to, and the ranges of a valid state: those four
  and a heading in [0, 360).
\<close>

definition in_clamp_ranges :: "vehicle_state \<Rightarrow> bool" where
  "in_clamp_ranges state =
     (0 \<le> st_speed state \<and> st_speed state \<le> 140 \<and>
      800 \<le> st_engine_rpm state \<and> st_engine_rpm state \<le> 6500 \<and>
      0 \<le> st_fuel_level state \<and>
      70 \<le> st_engine_temperature state \<and> st_engine_temperature state \<le> 120)"

definition valid_state :: "vehicle_state \<Rightarrow> bool" where
  "valid_state state =
     (in_clamp_ranges state \<and> 0 \<le> st_direction state \<and> st_direction state < 360)"

text \<open>The numeric fields of a state are floats.\<close>

definition float_state :: "vehicle_state \<Rightarrow> bool" where
  "float_state state =
     (fl (st_speed state) = st_speed state \<and>
      fl (st_engine_rpm state) = st_engine_rpm state \<and>
      fl (st_fuel_level state) = st_fuel_level state \<and>
      fl (st_engine_temperature state) = st_engine_temperature state \<and>
      fl (st_latitude state) = st_latitude state \<and>
      fl (st_longitude state) = st_longitude state \<and>
      fl (st_direction state) = st_direction state)"

text \<open>
  What holds of every state the mapping \<^verbatim>\<open>vehicle_states\<close> can hold: the four clamped fields
  are in their ranges and the numeric fields are floats.
\<close>

definition stored_state :: "vehicle_state \<Rightarrow> bool" where
  "stored_state state = (in_clamp_ranges state \<and> float_state state)"

section \<open>The connection manager\<close>

text \<open>
  A \<^verbatim>\<open>WebSocket\<close> object is known by its identity. \<^verbatim>\<open>class ConnectionManager\<close> has the one
  attribute \<^verbatim>\<open>active_connections\<close>, a list.
\<close>

type_synonym websocket = nat

record connection_manager =
  active_connections :: "websocket list"

text \<open>
  \<^verbatim>\<open>connect\<close> awaits \<^verbatim>\<open>websocket.accept()\<close>, which may raise, and then appends. The
  outcome of the accept is an input.
\<close>

definition connect :: "exn option \<Rightarrow> websocket \<Rightarrow> connection_manager \<Rightarrow> exn + connection_manager" where
  "connect accept_error websocket self =
     (case accept_error of
        Some e \<Rightarrow> Inl e
      | None \<Rightarrow> Inr (self\<lparr>active_connections := active_connections self @ [websocket]\<rparr>))"

text \<open>
  \<^verbatim>\<open>list.remove(x)\<close> deletes the first occurrence of \<^verbatim>\<open>x\<close> and raises \<^verbatim>\<open>ValueError\<close>
  when there is none.
\<close>

definition list_remove :: "'a \<Rightarrow> 'a list \<Rightarrow> exn + 'a list" where
  "list_remove x xs = (if x \<in> set xs then Inr (remove1 x xs) else Inl ValueError)"

definition disconnect :: "websocket \<Rightarrow> connection_manager \<Rightarrow> exn + connection_manager" where
  "disconnect websocket self =
     (case list_remove websocket (active_connections self) of
        Inl e \<Rightarrow> Inl e
      | Inr remaining \<Rightarrow> Inr (self\<lparr>active_connections := remaining\<rparr>))"

text \<open>
  The body of the \<^verbatim>\<open>try\<close> in \<^verbatim>\<open>broadcast\<close>: serialise the message, then send the text.
  \<^verbatim>\<open>json.dumps\<close> and the transport's \<^verbatim>\<open>send_text\<close> are library code: both are
  parameters, and either may raise. A successful send is reported as the pair of the
  connection and the text it was sent.
\<close>

definition send_json :: "('m \<Rightarrow> exn + string) \<Rightarrow> (websocket \<Rightarrow> string \<Rightarrow> exn option)
    \<Rightarrow> websocket \<Rightarrow> 'm \<Rightarrow> exn + (websocket \<times> string) list" where
  "send_json dumps send_text connection msg =
     (case dumps msg of
        Inl e \<Rightarrow> Inl e
      | Inr payload \<Rightarrow>
          (case send_text connection payload of
             Some e \<Rightarrow> Inl e
           | None \<Rightarrow> Inr [(connection, payload)]))"

text \<open>\<^verbatim>\<open>try: ... except: pass\<close>: a bare \<^verbatim>\<open>except\<close> catches every exception.\<close>

definition try_except_pass :: "exn + 'a list \<Rightarrow> exn + 'a list" where
  "try_except_pass attempt = (case attempt of Inl e \<Rightarrow> Inr [] | Inr sent \<Rightarrow> Inr sent)"

fun broadcast_loop :: "('m \<Rightarrow> exn + string) \<Rightarrow> (websocket \<Rightarrow> string \<Rightarrow> exn option)
    \<Rightarrow> websocket list \<Rightarrow> 'm \<Rightarrow> exn + (websocket \<times> string) list" where
  "broadcast_loop dumps send_text [] msg = Inr []"
| "broadcast_loop dumps send_text (connection # rest) msg =
     (case try_except_pass (send_json dumps send_text connection msg) of
        Inl e \<Rightarrow> Inl e
      | Inr sent \<Rightarrow>
          (case broadcast_loop dumps send_text rest msg of
             Inl e \<Rightarrow> Inl e
           | Inr others \<Rightarrow> Inr (sent @ others)))"

definition broadcast :: "('m \<Rightarrow> exn + string) \<Rightarrow> (websocket \<Rightarrow> string \<Rightarrow> exn option)
    \<Rightarrow> connection_manager \<Rightarrow> 'm \<Rightarrow> exn + (websocket \<times> string) list" where
  "broadcast dumps send_text self msg =
     broadcast_loop dumps send_text (active_connections self) msg"

section \<open>The process state and the registry routes\<close>

text \<open>
  The dict sent every tick: \<^verbatim>\<open>type\<close>, \<^verbatim>\<open>timestamp\<close> (the clock reading whose ISO text is
  sent), \<^verbatim>\<open>data\<close> and \<^verbatim>\<open>alerts\<close>.
\<close>

record batch_message =
  type_m :: string
  timestamp_m :: datetime
  data_m :: "telemetry_data list"
  alerts_m :: "telemetry_alert list"

text \<open>
  What a tick does that can be seen from outside besides the database: a call of
  \<^verbatim>\<open>manager.broadcast\<close> (with the message and the sends that went through) and
  \<^verbatim>\<open>asyncio.sleep\<close> (with its seconds).
\<close>

datatype event =
    Broadcast batch_message "(websocket \<times> string) list"
  | Sleep nat

text \<open>
  The globals of the module: \<^verbatim>\<open>manager\<close>, \<^verbatim>\<open>vehicle_states\<close>, and the two collections
  \<^verbatim>\<open>db.vehicles\<close> and \<^verbatim>\<open>db.telemetry\<close> (documents in their natural order), together with
  the history of events.
\<close>

record world =
  manager :: connection_manager
  vehicle_states :: "string \<rightharpoonup> vehicle_state"
  db_vehicles :: "vehicle list"
  db_telemetry :: "telemetry_data list"
  trace :: "event list"

text \<open>\<^verbatim>\<open>find({"is_active": True}).to_list(100)\<close>: at most the first 100 matching documents.\<close>

definition find_active :: "vehicle list \<Rightarrow> vehicle list" where
  "find_active docs = take 100 (filter is_active docs)"

text \<open>
  \<^verbatim>\<open>update_one(filter, {"$set": ...})\<close>: changes the first matching document; the count
  of matched documents is 1 or 0.
\<close>

fun update_one :: "('d \<Rightarrow> bool) \<Rightarrow> ('d \<Rightarrow> 'd) \<Rightarrow> 'd list \<Rightarrow> nat \<times> 'd list" where
  "update_one p f [] = (0, [])"
| "update_one p f (doc # docs) =
     (if p doc then (1, f doc # docs)
      else (fst (update_one p f docs), doc # snd (update_one p f docs)))"

text \<open>
  The routes take the outcome of their database call as an input (\<^verbatim>\<open>Some e\<close>: the driver
  raised \<^verbatim>\<open>e\<close>), and return the response or the exception together with the new state.
\<close>

definition create_vehicle :: "exn option \<Rightarrow> string \<Rightarrow> datetime \<Rightarrow> init_draws \<Rightarrow> vehicle_create
    \<Rightarrow> world \<Rightarrow> (exn + vehicle) \<times> world" where
  "create_vehicle db_error fresh_id now draws vehicle_data w =
     (let v = \<lparr>id_v = fresh_id, name_v = name_c vehicle_data, model_v = model_c vehicle_data,
                year_v = year_c vehicle_data, license_plate_v = license_plate_c vehicle_data,
                is_active = True, created_at = now\<rparr>
      in case db_error of
           Some e \<Rightarrow> (Inl e, w)
         | None \<Rightarrow>
             (Inr v,
              w\<lparr>db_vehicles := db_vehicles w @ [v],
                vehicle_states := (vehicle_states w)(id_v v \<mapsto> initialize_vehicle_state (id_v v) draws)\<rparr>))"


definition update_vehicle :: "exn option \<Rightarrow> string \<Rightarrow> vehicle_create \<Rightarrow> world
    \<Rightarrow> (exn + vehicle) \<times> world" where
  "update_vehicle db_error vid vehicle_data w =
     (case db_error of
        Some e \<Rightarrow> (Inl e, w)
      | None \<Rightarrow>
          (case update_one (\<lambda>doc. id_v doc = vid)
                  (\<lambda>doc. doc\<lparr>name_v := name_c vehicle_data, model_v := model_c vehicle_data,
                            year_v := year_c vehicle_data,
                            license_plate_v := license_plate_c vehicle_data, id_v := vid\<rparr>)
                  (db_vehicles w) of
             (matched_count, docs) \<Rightarrow>
               if matched_count = 0 then (Inl (HTTPException 404 ''Vehicle not found''), w)
               else (case find (\<lambda>doc. id_v doc = vid) docs of
                       None \<Rightarrow> (Inl (OtherError ''TypeError''), w\<lparr>db_vehicles := docs\<rparr>)
                     | Some updated_vehicle \<Rightarrow> (Inr updated_vehicle, w\<lparr>db_vehicles := docs\<rparr>))))"

definition delete_vehicle :: "exn option \<Rightarrow> string \<Rightarrow> world \<Rightarrow> (exn + string) \<times> world" where
  "delete_vehicle db_error vid w =
     (case db_error of
        Some e \<Rightarrow> (Inl e, w)
      | None \<Rightarrow>
          (case update_one (\<lambda>doc. id_v doc = vid) (\<lambda>doc. doc\<lparr>is_active := False\<rparr>)
                  (db_vehicles w) of
             (matched_count, docs) \<Rightarrow>
               if matched_count = 0 then (Inl (HTTPException 404 ''Vehicle not found''), w)
               else (Inr ''Vehicle deleted successfully'',
                     (if vehicle_states w vid \<noteq> None
                      then w\<lparr>db_vehicles := docs, vehicle_states := (vehicle_states w)(vid := None)\<rparr>
                      else w\<lparr>db_vehicles := docs\<rparr>))))"

section \<open>The simulation loop\<close>

text \<open>
  What one pass of the \<^verbatim>\<open>while True\<close> body takes from outside. The vehicles of a pass
  are numbered from 0 in the order they are fetched; the draws and the outcome of the
  insert of each are given by its number.
\<close>

record tick_env =
  find_error :: "exn option"
  init_input :: "nat \<Rightarrow> init_draws"
  step_input :: "nat \<Rightarrow> step_draws"
  insert_error :: "nat \<Rightarrow> exn option"
  message_time :: datetime
  dumps_json :: "batch_message \<Rightarrow> exn + string"
  send_text_result :: "websocket \<Rightarrow> string \<Rightarrow> exn option"

text \<open>
  The first half of the \<^verbatim>\<open>for vehicle_data in vehicles\<close> body: create the state when the
  identifier has none, then advance it. Returns the sample with the state mapping
  updated.
\<close>

definition simulate_vehicle :: "tick_env \<Rightarrow> nat \<Rightarrow> vehicle \<Rightarrow> world \<Rightarrow> telemetry_data \<times> world" where
  "simulate_vehicle env i vehicle_data w =
     (let vid = id_v vehicle_data;
          state = (case vehicle_states w vid of
                     None \<Rightarrow> initialize_vehicle_state vid (init_input env i)
                   | Some existing \<Rightarrow> existing);
          result = simulate_realistic_telemetry vid state (step_input env i)
      in (snd result, w\<lparr>vehicle_states := (vehicle_states w)(vid \<mapsto> fst result)\<rparr>))"

text \<open>
  The \<^verbatim>\<open>for\<close> loop, with the two accumulators \<^verbatim>\<open>all_telemetry\<close> and \<^verbatim>\<open>all_alerts\<close>. An
  exception of \<^verbatim>\<open>insert_one\<close> is not caught inside the loop: it leaves the loop at once,
  with the state as it is at that point.
\<close>

fun for_vehicles :: "tick_env \<Rightarrow> nat \<Rightarrow> vehicle list \<Rightarrow> telemetry_data list \<times> telemetry_alert list
    \<Rightarrow> world \<Rightarrow> (exn + telemetry_data list \<times> telemetry_alert list) \<times> world" where
  "for_vehicles env i [] acc w = (Inr acc, w)"
| "for_vehicles env i (vehicle_data # rest) (all_telemetry, all_alerts) w =
     (case simulate_vehicle env i vehicle_data w of
        (telemetry, w1) \<Rightarrow>
          (case insert_error env i of
             Some e \<Rightarrow> (Inl e, w1)
           | None \<Rightarrow>
               (case check_telemetry_alerts telemetry of
                  Inl e \<Rightarrow> (Inl e, w1\<lparr>db_telemetry := db_telemetry w1 @ [telemetry]\<rparr>)
                | Inr alerts \<Rightarrow>
                    for_vehicles env (Suc i) rest
                      (all_telemetry @ [telemetry], all_alerts @ alerts)
                      (w1\<lparr>db_telemetry := db_telemetry w1 @ [telemetry]\<rparr>))))"

text \<open>One pass of the body of \<^verbatim>\<open>while True\<close>.\<close>

definition tick :: "tick_env \<Rightarrow> world \<Rightarrow> (exn + unit) \<times> world" where
  "tick env w =
     (case find_error env of
        Some e \<Rightarrow> (Inl e, w)
      | None \<Rightarrow>
          (case for_vehicles env 0 (find_active (db_vehicles w)) ([], []) w of
             (Inl e, w1) \<Rightarrow> (Inl e, w1)
           | (Inr (all_telemetry, all_alerts), w1) \<Rightarrow>
               (let msg = \<lparr>type_m = ''telemetry_update'', timestamp_m = message_time env,
                            data_m = all_telemetry, alerts_m = all_alerts\<rparr>
                in case broadcast (dumps_json env) (send_text_result env) (manager w1) msg of
                     Inl e \<Rightarrow> (Inl e, w1)
                   | Inr sent \<Rightarrow>
                       (Inr (), w1\<lparr>trace := trace w1 @ [Broadcast msg sent, Sleep 1]\<rparr>))))"

text \<open>
  The \<^verbatim>\<open>while True\<close> loop can only end by an exception. With fuel for \<open>n\<close> passes it
  returns \<open>None\<close> when all \<open>n\<close> passes completed (the loop is still running) and
  \<open>Some e\<close> when a pass raised \<open>e\<close>. Pass number \<open>k\<close> takes its inputs from \<open>envs k\<close>.
\<close>

fun run_ticks :: "nat \<Rightarrow> (nat \<Rightarrow> tick_env) \<Rightarrow> nat \<Rightarrow> world \<Rightarrow> exn option \<times> world" where
  "run_ticks 0 envs k w = (None, w)"
| "run_ticks (Suc n) envs k w =
     (case tick (envs k) w of
        (Inl e, w1) \<Rightarrow> (Some e, w1)
      | (Inr u, w1) \<Rightarrow> run_ticks n envs (Suc k) w1)"

text \<open>
  The handler \<^verbatim>\<open>websocket_telemetry\<close>: register the connection, run the loop, and on
  \<^verbatim>\<open>WebSocketDisconnect\<close> (only) unregister it and return. Any other exception leaves the
  handler. The result \<open>Inr False\<close> says the loop is still running when the fuel is used
  up, \<open>Inr True\<close> that the handler returned.
\<close>

definition websocket_telemetry :: "nat \<Rightarrow> exn option \<Rightarrow> (nat \<Rightarrow> tick_env) \<Rightarrow> websocket \<Rightarrow> world
    \<Rightarrow> (exn + bool) \<times> world" where
  "websocket_telemetry fuel accept_error envs websocket w =
     (case connect accept_error websocket (manager w) of
        Inl e \<Rightarrow> (Inl e, w)
      | Inr m \<Rightarrow>
          (case run_ticks fuel envs 0 (w\<lparr>manager := m\<rparr>) of
             (None, w1) \<Rightarrow> (Inr False, w1)
           | (Some WebSocketDisconnect, w1) \<Rightarrow>
               (case disconnect websocket (manager w1) of
                  Inl e \<Rightarrow> (Inl e, w1)
                | Inr m1 \<Rightarrow> (Inr True, w1\<lparr>manager := m1\<rparr>))
           | (Some e, w1) \<Rightarrow> (Inl e, w1)))"






text \<open>
  A pass is a coroutine: while it awaits \<^verbatim>\<open>insert_one\<close>, the event loop runs whatever else
  is ready, a route for instance. \<open>for_vehicles_await\<close> is the \<^verbatim>\<open>for\<close> loop in which, while
  the insert of vehicle number \<open>i\<close> is awaited, the state is changed by \<open>served i\<close> (the
  identity when nothing else runs); the list of vehicles was fetched before the loop.
\<close>

fun for_vehicles_await :: "(nat \<Rightarrow> world \<Rightarrow> world) \<Rightarrow> tick_env \<Rightarrow> nat \<Rightarrow> vehicle list
    \<Rightarrow> telemetry_data list \<times> telemetry_alert list
    \<Rightarrow> world \<Rightarrow> (exn + telemetry_data list \<times> telemetry_alert list) \<times> world" where
  "for_vehicles_await served env i [] acc w = (Inr acc, w)"
| "for_vehicles_await served env i (vehicle_data # rest) (all_telemetry, all_alerts) w =
     (case simulate_vehicle env i vehicle_data w of
        (telemetry, w1) \<Rightarrow>
          (case insert_error env i of
             Some e \<Rightarrow> (Inl e, served i w1)
           | None \<Rightarrow>
               (case check_telemetry_alerts telemetry of
                  Inl e \<Rightarrow>
                    (Inl e, (served i w1)\<lparr>db_telemetry := db_telemetry (served i w1) @ [telemetry]\<rparr>)
                | Inr alerts \<Rightarrow>
                    for_vehicles_await served env (Suc i) rest
                      (all_telemetry @ [telemetry], all_alerts @ alerts)
                      ((served i w1)\<lparr>db_telemetry := db_telemetry (served i w1) @ [telemetry]\<rparr>))))"

definition tick_await :: "(nat \<Rightarrow> world \<Rightarrow> world) \<Rightarrow> tick_env \<Rightarrow> world \<Rightarrow> (exn + unit) \<times> world" where
  "tick_await served env w =
     (case find_error env of
        Some e \<Rightarrow> (Inl e, w)
      | None \<Rightarrow>
          (case for_vehicles_await served env 0 (find_active (db_vehicles w)) ([], []) w of
             (Inl e, w1) \<Rightarrow> (Inl e, w1)
           | (Inr (all_telemetry, all_alerts), w1) \<Rightarrow>
               (let msg = \<lparr>type_m = ''telemetry_update'', timestamp_m = message_time env,
                            data_m = all_telemetry, alerts_m = all_alerts\<rparr>
                in case broadcast (dumps_json env) (send_text_result env) (manager w1) msg of
                     Inl e \<Rightarrow> (Inl e, w1)
                   | Inr sent \<Rightarrow>
                       (Inr (), w1\<lparr>trace := trace w1 @ [Broadcast msg sent, Sleep 1]\<rparr>))))"

text \<open>The messages broadcast and the seconds slept, read off a history of events.\<close>

fun broadcasts :: "event list \<Rightarrow> batch_message list" where
  "broadcasts [] = []"
| "broadcasts (Broadcast msg sent # evs) = msg # broadcasts evs"
| "broadcasts (Sleep n # evs) = broadcasts evs"


section \<open>The alert rule as the specification words it\<close>

text \<open>
  For one metric with its value and its \<open>min\<close> and \<open>max\<close>: above \<open>max\<close> one alert, of
  severity high when the value exceeds \<open>max \<times> 1.2\<close> and medium otherwise; below \<open>min\<close>
  one alert, of severity high when the value is under \<open>min \<times> 0.8\<close> and medium otherwise;
  in between no alert. The four metrics are taken in the order speed, engine RPM, fuel
  level, engine temperature.
\<close>

definition spec_alert_for :: "telemetry_data \<Rightarrow> string \<Rightarrow> real \<Rightarrow> real \<Rightarrow> real \<Rightarrow> telemetry_alert list" where
  "spec_alert_for sample name v mn mx =
     (if v > mx then
        [\<lparr>vehicle_id_a = vehicle_id sample, metric = name, value_a = v, threshold = mx,
          severity = (if v > mx * 1.2 then ''high'' else ''medium''),
          message = (title (replace_char CHR ''_'' CHR '' '' name) @ '' is critically high: '', v)\<rparr>]
      else if v < mn then
        [\<lparr>vehicle_id_a = vehicle_id sample, metric = name, value_a = v, threshold = mn,
          severity = (if v < mn * 0.8 then ''high'' else ''medium''),
          message = (title (replace_char CHR ''_'' CHR '' '' name) @ '' is critically low: '', v)\<rparr>]
      else [])"

definition spec_check :: "telemetry_data \<Rightarrow> telemetry_alert list" where
  "spec_check sample =
     spec_alert_for sample ''speed'' (speed sample) 0 120 @
     spec_alert_for sample ''engine_rpm'' (engine_rpm sample) 800 6000 @
     spec_alert_for sample ''fuel_level'' (fuel_level sample) 10 100 @
     spec_alert_for sample ''engine_temperature'' (engine_temperature sample) 80 100"

section \<open>Example inputs\<close>

text \<open>A sample that is over the speed limit and low on fuel.\<close>

definition sample_fast_low_fuel :: telemetry_data where
  "sample_fast_low_fuel =
     \<lparr>id_t = ''s1'', vehicle_id = ''v1'', speed = 145, engine_rpm = 3000, fuel_level = 5,
      engine_temperature = 90, latitude = 0, longitude = 0, timestamp = 0\<rparr>"

text \<open>
  A state in the valid ranges, a step one second later, a step at the very instant of the
  last update (with the largest speed noise and a turn of 10 degrees), and a step one
  second later that turns left by \<open>2\<^sup>-\<^sup>4\<^sup>7\<close> degrees: the value \<^verbatim>\<open>random.uniform(-30, 30)\<close>
  returns when \<^verbatim>\<open>random.random()\<close> returns \<open>(2\<^sup>5\<^sup>2 - 1) / 2\<^sup>5\<^sup>3\<close>.
\<close>

definition state_cruising :: vehicle_state where
  "state_cruising =
     \<lparr>st_speed = 70, st_engine_rpm = 2000, st_fuel_level = 80, st_engine_temperature = 90,
      st_latitude = 38, st_longitude = - 122, st_direction = 0, st_last_update = 0\<rparr>"

definition draws_one_second :: step_draws where
  "draws_one_second =
     \<lparr>current_time = 1000000, speed_noise = 3, rpm_noise = 12.5, turn_roll = 0.05,
      turn_delta = - 10, new_id = ''t1''\<rparr>"

definition draws_zero_dt :: step_draws where
  "draws_zero_dt =
     \<lparr>current_time = 0, speed_noise = 5, rpm_noise = 150, turn_roll = 0,
      turn_delta = 10, new_id = ''t2''\<rparr>"

definition draws_tiny_left_turn :: step_draws where
  "draws_tiny_left_turn =
     \<lparr>current_time = 1000000, speed_noise = 0, rpm_noise = 0, turn_roll = 0,
      turn_delta = - (1 / 2 ^ 47), new_id = ''t3''\<rparr>"

text \<open>
  A registry of two active vehicles, one of which has a state already, with no viewer
  connected; a pass in which every outside call succeeds, and one in which the first
  insert fails.
\<close>

definition vehicle_one :: vehicle where
  "vehicle_one = \<lparr>id_v = ''v1'', name_v = ''Car 1'', model_v = ''A'', year_v = 2020,
     license_plate_v = ''P1'', is_active = True, created_at = 0\<rparr>"

definition vehicle_two :: vehicle where
  "vehicle_two = \<lparr>id_v = ''v2'', name_v = ''Car 2'', model_v = ''B'', year_v = 2021,
     license_plate_v = ''P2'', is_active = True, created_at = 0\<rparr>"

definition world_two_vehicles :: world where
  "world_two_vehicles =
     \<lparr>manager = \<lparr>active_connections = []\<rparr>,
      vehicle_states = [''v1'' \<mapsto> state_cruising],
      db_vehicles = [vehicle_one, vehicle_two],
      db_telemetry = [],
      trace = []\<rparr>"

definition draws_initial :: init_draws where
  "draws_initial =
     \<lparr>u_speed = 65, u_engine_rpm = 1800, u_fuel_level = 60, u_engine_temperature = 88,
      u_latitude = 0.05, u_longitude = - 0.05, u_direction = 90, init_now = 1000000\<rparr>"

definition env_ok :: tick_env where
  "env_ok =
     \<lparr>find_error = None,
      init_input = (\<lambda>i. draws_initial),
      step_input = (\<lambda>i. draws_one_second),
      insert_error = (\<lambda>i. None),
      message_time = 1000000,
      dumps_json = (\<lambda>msg. Inr ''payload''),
      send_text_result = (\<lambda>connection payload. None)\<rparr>"

definition env_insert_fails :: tick_env where
  "env_insert_fails =
     env_ok\<lparr>insert_error := (\<lambda>i. if i = 0 then Some (OtherError ''insert failed'') else None)\<rparr>"

text \<open>
  The same registry when one viewer is connected and both vehicles have a state, and the
  request \<^verbatim>\<open>DELETE /vehicles/v2\<close> served while the first insert of a pass is awaited.
\<close>

definition world_one_viewer :: world where
  "world_one_viewer =
     \<lparr>manager = \<lparr>active_connections = [5]\<rparr>,
      vehicle_states = [''v1'' \<mapsto> state_cruising, ''v2'' \<mapsto> state_cruising],
      db_vehicles = [vehicle_one, vehicle_two],
      db_telemetry = [],
      trace = []\<rparr>"

definition delete_v2_at_first_await :: "nat \<Rightarrow> world \<Rightarrow> world" where
  "delete_v2_at_first_await i w = (if i = 0 then snd (delete_vehicle None ''v2'' w) else w)"



section \<open>Properties of the alert evaluator\<close>

lemmas title_defs = title_def replace_char_def is_cased_def to_upper_def to_lower_def
  lower_letters_def upper_letters_def

lemma check_metric_speed:
  "check_metric t ''speed'' \<lparr>thr_max = mx, thr_min = mn\<rparr> =
     Inr (spec_alert_for t ''speed'' (speed t) mn mx)"
  by (simp add: check_metric_def getattr_telemetry_def spec_alert_for_def)

lemma check_metric_engine_rpm:
  "check_metric t ''engine_rpm'' \<lparr>thr_max = mx, thr_min = mn\<rparr> =
     Inr (spec_alert_for t ''engine_rpm'' (engine_rpm t) mn mx)"
  by (simp add: check_metric_def getattr_telemetry_def spec_alert_for_def)

lemma check_metric_fuel_level:
  "check_metric t ''fuel_level'' \<lparr>thr_max = mx, thr_min = mn\<rparr> =
     Inr (spec_alert_for t ''fuel_level'' (fuel_level t) mn mx)"
  by (simp add: check_metric_def getattr_telemetry_def spec_alert_for_def)

lemma check_metric_engine_temperature:
  "check_metric t ''engine_temperature'' \<lparr>thr_max = mx, thr_min = mn\<rparr> =
     Inr (spec_alert_for t ''engine_temperature'' (engine_temperature t) mn mx)"
  by (simp add: check_metric_def getattr_telemetry_def spec_alert_for_def)

text \<open>The evaluator never raises: every name in the table is a field of the sample.\<close>

lemma check_eq_spec: "check_telemetry_alerts t = Inr (spec_check t)"
  by (simp add: check_telemetry_alerts_def TELEMETRY_THRESHOLDS_def spec_check_def
      check_metric_speed check_metric_engine_rpm check_metric_fuel_level
      check_metric_engine_temperature)

lemma spec_alert_for_length: "length (spec_alert_for t m v mn mx) \<le> 1"
  by (simp add: spec_alert_for_def)

lemma spec_alert_for_metrics:
  "map metric (spec_alert_for t m v mn mx) = [] \<or> map metric (spec_alert_for t m v mn mx) = [m]"
  by (simp add: spec_alert_for_def)

lemma filter_spec_alert_for:
  "filter (\<lambda>a. metric a = m') (spec_alert_for t m v mn mx) =
     (if m' = m then spec_alert_for t m v mn mx else [])"
  by (auto simp: spec_alert_for_def)

lemma spec_check_length: "length (spec_check t) \<le> 4"
proof -
  have "length (spec_check t) =
      length (spec_alert_for t ''speed'' (speed t) 0 120) +
      length (spec_alert_for t ''engine_rpm'' (engine_rpm t) 800 6000) +
      length (spec_alert_for t ''fuel_level'' (fuel_level t) 10 100) +
      length (spec_alert_for t ''engine_temperature'' (engine_temperature t) 80 100)"
    by (simp add: spec_check_def)
  also have "\<dots> \<le> 1 + 1 + 1 + 1"
    by (intro add_mono spec_alert_for_length)
  finally show ?thesis by simp
qed

lemma spec_check_per_metric: "length (filter (\<lambda>a. metric a = m) (spec_check t)) \<le> 1"
proof -
  have one: "\<And>n v mn mx. length (spec_alert_for t n v mn mx) \<le> 1"
    by (rule spec_alert_for_length)
  show ?thesis
    using one[of "''speed''"] one[of "''engine_rpm''"] one[of "''fuel_level''"]
      one[of "''engine_temperature''"]
    by (simp add: spec_check_def filter_spec_alert_for)
qed

lemma subseq_singleton_or_empty:
  "xs = [] \<or> xs = [m] \<Longrightarrow> subseq ys zs \<Longrightarrow> subseq (xs @ ys) (m # zs)"
  by auto

lemma spec_check_order:
  "subseq (map metric (spec_check t))
     [''speed'', ''engine_rpm'', ''fuel_level'', ''engine_temperature'']"
proof -
  have last: "subseq (map metric (spec_alert_for t ''engine_temperature'' (engine_temperature t) 80 100))
      [''engine_temperature'']"
    using spec_alert_for_metrics[of t "''engine_temperature''" "engine_temperature t" 80 100]
    by auto
  show ?thesis
    unfolding spec_check_def map_append
    by (intro subseq_singleton_or_empty spec_alert_for_metrics last)
qed

lemma spec_check_speed_145:
  "speed t = 145 \<Longrightarrow>
   filter (\<lambda>a. metric a = ''speed'') (spec_check t) =
     [\<lparr>vehicle_id_a = vehicle_id t, metric = ''speed'', value_a = 145, threshold = 120,
       severity = ''high'', message = (''Speed is critically high: '', 145)\<rparr>]"
  by (simp add: spec_check_def filter_spec_alert_for) (simp add: spec_alert_for_def title_defs)

text \<open>
  C7. For every sample, \<^const>\<open>check_telemetry_alerts\<close> returns exactly the alerts of the
  rule of the specification (\<^const>\<open>spec_check\<close>): the four metrics in the order speed,
  engine RPM, fuel level, engine temperature, each giving at most one alert, so at most
  four alerts in that order; and a sample whose speed is 145 gets exactly one speed alert,
  of severity high.
\<close>

theorem check_telemetry_alerts_rule:
  "check_telemetry_alerts sample = Inr (spec_check sample) \<and>
   length (spec_check sample) \<le> 4 \<and>
   length (filter (\<lambda>a. metric a = m) (spec_check sample)) \<le> 1 \<and>
   subseq (map metric (spec_check sample))
     [''speed'', ''engine_rpm'', ''fuel_level'', ''engine_temperature''] \<and>
   (speed sample = 145 \<longrightarrow>
      filter (\<lambda>a. metric a = ''speed'') (spec_check sample) =
        [\<lparr>vehicle_id_a = vehicle_id sample, metric = ''speed'', value_a = 145, threshold = 120,
          severity = ''high'', message = (''Speed is critically high: '', 145)\<rparr>])"
  using check_eq_spec spec_check_length spec_check_per_metric spec_check_order
    spec_check_speed_145
  by blast

theorem check_telemetry_alerts_rule_witness:
  "speed sample_fast_low_fuel = 145 \<and>
   check_telemetry_alerts sample_fast_low_fuel =
     Inr [\<lparr>vehicle_id_a = ''v1'', metric = ''speed'', value_a = 145, threshold = 120,
            severity = ''high'', message = (''Speed is critically high: '', 145)\<rparr>,
          \<lparr>vehicle_id_a = ''v1'', metric = ''fuel_level'', value_a = 5, threshold = 10,
            severity = ''high'', message = (''Fuel Level is critically low: '', 5)\<rparr>] \<and>
   filter (\<lambda>a. metric a = ''speed'') (spec_check sample_fast_low_fuel) =
     [\<lparr>vehicle_id_a = ''v1'', metric = ''speed'', value_a = 145, threshold = 120,
       severity = ''high'', message = (''Speed is critically high: '', 145)\<rparr>]"
  using check_telemetry_alerts_rule [of sample_fast_low_fuel "''speed''"]
  by (simp add: sample_fast_low_fuel_def spec_check_def spec_alert_for_def title_defs)

lemma check_metric_severity:
  "check_metric t m th = Inr new \<Longrightarrow> a \<in> set new \<Longrightarrow>
   severity a = ''medium'' \<or> severity a = ''high''"
  by (auto simp: check_metric_def split: sum.splits if_splits)

lemma check_loop_severity:
  "check_loop t tbl acc = Inr alerts \<Longrightarrow>
   \<forall>a \<in> set acc. severity a = ''medium'' \<or> severity a = ''high'' \<Longrightarrow>
   \<forall>a \<in> set alerts. severity a = ''medium'' \<or> severity a = ''high''"
proof (induction tbl arbitrary: acc)
  case Nil
  then show ?case by simp
next
  case (Cons entry tbl)
  obtain m th where entry: "entry = (m, th)" by (cases entry)
  from Cons.prems(1) entry obtain new where
    new: "check_metric t m th = Inr new" and rest: "check_loop t tbl (acc @ new) = Inr alerts"
    by (auto split: sum.splits)
  have "\<forall>a \<in> set (acc @ new). severity a = ''medium'' \<or> severity a = ''high''"
    using Cons.prems(2) check_metric_severity[OF new] by auto
  with Cons.IH[OF rest] show ?case by blast
qed

text \<open>
  C9. Every alert that \<^const>\<open>check_telemetry_alerts\<close> returns has severity "medium" or
  "high"; the severity "low" is never produced.
\<close>

theorem severity_medium_or_high:
  assumes "check_telemetry_alerts sample = Inr alerts" and "a \<in> set alerts"
  shows "(severity a = ''medium'' \<or> severity a = ''high'') \<and> severity a \<noteq> ''low''"
proof -
  have "\<forall>a \<in> set alerts. severity a = ''medium'' \<or> severity a = ''high''"
    using assms(1) unfolding check_telemetry_alerts_def
    by (rule check_loop_severity) simp
  with assms(2) have "severity a = ''medium'' \<or> severity a = ''high''" by blast
  then show ?thesis by auto
qed

theorem severity_medium_or_high_witness:
  "check_telemetry_alerts sample_fast_low_fuel =
     Inr [\<lparr>vehicle_id_a = ''v1'', metric = ''speed'', value_a = 145, threshold = 120,
            severity = ''high'', message = (''Speed is critically high: '', 145)\<rparr>,
          \<lparr>vehicle_id_a = ''v1'', metric = ''fuel_level'', value_a = 5, threshold = 10,
            severity = ''high'', message = (''Fuel Level is critically low: '', 5)\<rparr>] \<and>
   severity \<lparr>vehicle_id_a = ''v1'', metric = ''fuel_level'', value_a = 5, threshold = 10,
            severity = ''high'', message = (''Fuel Level is critically low: '', 5)\<rparr> \<noteq> ''low''"
proof -
  let ?speeding = "\<lparr>vehicle_id_a = ''v1'', metric = ''speed'', value_a = 145, threshold = 120,
            severity = ''high'', message = (''Speed is critically high: '', 145)\<rparr>"
  let ?empty = "\<lparr>vehicle_id_a = ''v1'', metric = ''fuel_level'', value_a = 5, threshold = 10,
            severity = ''high'', message = (''Fuel Level is critically low: '', 5)\<rparr>"
  have run: "check_telemetry_alerts sample_fast_low_fuel = Inr [?speeding, ?empty]"
    by (simp add: check_eq_spec sample_fast_low_fuel_def spec_check_def spec_alert_for_def
        title_defs)
  have mem: "?empty \<in> set [?speeding, ?empty]"
    by simp
  from severity_medium_or_high [OF run mem] run show ?thesis
    by blast
qed

section \<open>Properties of the connection manager\<close>

lemma broadcast_loop_result:
  "broadcast_loop dumps send_text conns msg =
     Inr (case dumps msg of
            Inl e \<Rightarrow> []
          | Inr payload \<Rightarrow>
              map (\<lambda>c. (c, payload)) (filter (\<lambda>c. send_text c payload = None) conns))"
proof (induction conns)
  case Nil
  then show ?case by (simp split: sum.splits)
next
  case (Cons c conns)
  then show ?case
    by (cases "dumps msg") (simp_all add: try_except_pass_def send_json_def split: option.splits)
qed

text \<open>
  C2. For every registry and every message, \<^const>\<open>broadcast\<close> never raises, and it
  delivers the serialised message to every registered connection whose own send does not
  fail, in registry order: a connection whose send fails is skipped and the others still
  receive the message. (When \<^verbatim>\<open>json.dumps\<close> rejects the message, the attempt fails for
  every connection alike and nothing is sent, still without raising.)
\<close>

theorem broadcast_isolates_failures:
  "broadcast dumps send_text self msg =
     Inr (case dumps msg of
            Inl e \<Rightarrow> []
          | Inr payload \<Rightarrow>
              map (\<lambda>c. (c, payload))
                (filter (\<lambda>c. send_text c payload = None) (active_connections self)))"
  unfolding broadcast_def by (rule broadcast_loop_result)

theorem broadcast_isolates_failures_witness:
  "broadcast (\<lambda>m. Inr m) (\<lambda>c payload. if c = 2 then Some (OtherError ''closed'') else None)
     \<lparr>active_connections = [1, 2, 3]\<rparr> ''tick'' = Inr [(1, ''tick''), (3, ''tick'')]"
  using broadcast_isolates_failures
    [of "\<lambda>m. Inr m" "\<lambda>c payload. if c = 2 then Some (OtherError ''closed'') else None"
        "\<lparr>active_connections = [1, 2, 3]\<rparr>" "''tick''"]
  by simp

text \<open>
  C3, as stated, fails: \<^const>\<open>disconnect\<close> on a connection that is not registered raises
  \<^verbatim>\<open>ValueError\<close> (from \<^verbatim>\<open>list.remove\<close>) instead of doing nothing.
\<close>

theorem disconnect_absent_counterexample:
  "disconnect 7 \<lparr>active_connections = [1, 2]\<rparr> = Inl ValueError \<and>
   disconnect 7 \<lparr>active_connections = [1, 2]\<rparr> \<noteq> Inr \<lparr>active_connections = [1, 2]\<rparr>"
  by (simp add: disconnect_def list_remove_def)

text \<open>
  C3, amended. \<^const>\<open>disconnect\<close> on a registered connection removes its first occurrence
  from the registry and keeps the others in order; when the connection was registered
  once it is absent afterwards, and a second \<^const>\<open>disconnect\<close> of it raises
  \<^verbatim>\<open>ValueError\<close>. On a connection that is not registered \<^const>\<open>disconnect\<close> raises
  \<^verbatim>\<open>ValueError\<close>.
\<close>

theorem disconnect_removes_or_raises:
  "(websocket \<in> set (active_connections self) \<longrightarrow>
      disconnect websocket self =
        Inr (self\<lparr>active_connections := remove1 websocket (active_connections self)\<rparr>) \<and>
      (distinct (active_connections self) \<longrightarrow>
         websocket \<notin> set (remove1 websocket (active_connections self)) \<and>
         set (remove1 websocket (active_connections self)) = set (active_connections self) - {websocket} \<and>
         disconnect websocket (self\<lparr>active_connections := remove1 websocket (active_connections self)\<rparr>)
           = Inl ValueError)) \<and>
   (websocket \<notin> set (active_connections self) \<longrightarrow> disconnect websocket self = Inl ValueError)"
  by (auto simp: disconnect_def list_remove_def)

theorem disconnect_removes_or_raises_witness:
  "2 \<in> set (active_connections \<lparr>active_connections = [1, 2, 3]\<rparr>) \<and>
   distinct (active_connections \<lparr>active_connections = [1, 2, 3]\<rparr>) \<and>
   disconnect 2 \<lparr>active_connections = [1, 2, 3]\<rparr> = Inr \<lparr>active_connections = [1, 3]\<rparr> \<and>
   disconnect 2 \<lparr>active_connections = [1, 3]\<rparr> = Inl ValueError \<and>
   7 \<notin> set (active_connections \<lparr>active_connections = [1, 2]\<rparr>) \<and>
   disconnect 7 \<lparr>active_connections = [1, 2]\<rparr> = Inl ValueError"
  using disconnect_removes_or_raises [of 2 "\<lparr>active_connections = [1, 2, 3]\<rparr>"]
    disconnect_removes_or_raises [of 7 "\<lparr>active_connections = [1, 2]\<rparr>"]
  by simp

section \<open>Properties of floating-point rounding\<close>

lemma fl_zero: "fl 0 = 0"
  by (simp add: fl_def)

lemma round_half_even_of_int: "round_half_even (of_int k) = k"
  by (simp add: round_half_even_def)

lemma round_half_even_bounds:
  "of_int (round_half_even x) \<le> x + 1 / 2" "x - 1 / 2 \<le> of_int (round_half_even x)"
  unfolding round_half_even_def Let_def
  by (auto split: if_splits, linarith+)

lemma round_half_even_le_int: "x \<le> of_int n \<Longrightarrow> round_half_even x \<le> n"
proof -
  assume a: "x \<le> of_int n"
  show ?thesis
  proof (cases "x = of_int n")
    case True
    then show ?thesis by (simp add: round_half_even_of_int)
  next
    case False
    with a have "x < of_int n" by simp
    then have "\<lfloor>x\<rfloor> < n" by (simp add: floor_less_iff)
    then have "\<lfloor>x\<rfloor> + 1 \<le> n" by simp
    then show ?thesis
      unfolding round_half_even_def Let_def by (auto split: if_splits)
  qed
qed

lemma round_half_even_ge_int: "of_int n \<le> x \<Longrightarrow> n \<le> round_half_even x"
proof -
  assume "of_int n \<le> x"
  then have "n \<le> \<lfloor>x\<rfloor>" by (simp add: le_floor_iff)
  then show ?thesis
    unfolding round_half_even_def Let_def by (auto split: if_splits)
qed

lemma binade:
  assumes "x \<noteq> 0"
  shows "2 powr of_int \<lfloor>log 2 \<bar>x\<bar>\<rfloor> \<le> \<bar>x\<bar>" and "\<bar>x\<bar> < 2 powr (of_int \<lfloor>log 2 \<bar>x\<bar>\<rfloor> + 1)"
proof -
  have pos: "0 < \<bar>x\<bar>" using assms by simp
  have "of_int \<lfloor>log 2 \<bar>x\<bar>\<rfloor> \<le> log 2 \<bar>x\<bar>" by simp
  then show "2 powr of_int \<lfloor>log 2 \<bar>x\<bar>\<rfloor> \<le> \<bar>x\<bar>"
    using pos by (simp add: powr_le_iff)
  have "log 2 \<bar>x\<bar> < of_int \<lfloor>log 2 \<bar>x\<bar>\<rfloor> + 1" by linarith
  then show "\<bar>x\<bar> < 2 powr (of_int \<lfloor>log 2 \<bar>x\<bar>\<rfloor> + 1)"
    using pos by (simp add: less_powr_iff)
qed

lemma exponent_unique:
  assumes "2 powr of_int e \<le> \<bar>x\<bar>" and "\<bar>x\<bar> < 2 powr (of_int e + 1)"
  shows "\<lfloor>log 2 \<bar>x\<bar>\<rfloor> = e"
proof -
  have pos: "0 < \<bar>x\<bar>" using assms(1) by (smt (verit) powr_gt_zero)
  have "of_int e \<le> log 2 \<bar>x\<bar>" using assms(1) pos by (simp add: le_log_iff)
  moreover have "log 2 \<bar>x\<bar> < of_int e + 1" using assms(2) pos by (simp add: log_less_iff)
  ultimately show ?thesis by (simp add: floor_eq_iff)
qed

lemma fl_in_binade:
  assumes "2 powr of_int e \<le> \<bar>x\<bar>" and "\<bar>x\<bar> < 2 powr (of_int e + 1)"
  shows "fl x = of_int (round_half_even (x / 2 powr (of_int e - 52))) * 2 powr (of_int e - 52)"
proof -
  have "x \<noteq> 0" using assms(1) by (smt (verit) powr_gt_zero)
  then show ?thesis
    by (simp add: fl_def exponent_unique[OF assms] Let_def)
qed

lemma two_powr_int: "0 \<le> n \<Longrightarrow> (2::real) powr of_int n = of_int (2 ^ nat n)"
  by (simp add: powr_real_of_int)

lemma fl_exact:
  assumes "2 powr of_int e \<le> \<bar>x\<bar>" and "\<bar>x\<bar> < 2 powr (of_int e + 1)"
    and "x = of_int m * 2 powr (of_int e - 52)"
  shows "fl x = x"
proof -
  have "x / 2 powr (of_int e - 52) = of_int m"
    using assms(3) by simp
  then show ?thesis
    using fl_in_binade[OF assms(1,2)] assms(3) by (simp add: round_half_even_of_int)
qed

lemma fl_dyadic:
  assumes "k \<noteq> 0" and "\<bar>k\<bar> < 2 ^ 53"
  shows "fl (of_int k * 2 powr of_int j) = of_int k * 2 powr of_int j"
proof -
  let ?x = "of_int k * 2 powr of_int j :: real"
  define ek where "ek = \<lfloor>log 2 \<bar>of_int k :: real\<bar>\<rfloor>"
  have k0: "(of_int k :: real) \<noteq> 0" using assms(1) by simp
  have lo: "2 powr of_int ek \<le> \<bar>of_int k :: real\<bar>"
    and hi: "\<bar>of_int k :: real\<bar> < 2 powr (of_int ek + 1)"
    unfolding ek_def using binade[OF k0] by simp_all
  have "\<bar>of_int k :: real\<bar> < 2 ^ 53"
    using assms(2) by (metis of_int_abs of_int_less_numeral_power_cancel_iff)
  then have "\<bar>of_int k :: real\<bar> < 2 powr 53"
    by simp
  then have "log 2 \<bar>of_int k :: real\<bar> < 53"
    using k0 by (subst log_less_iff) simp_all
  moreover have "of_int ek \<le> log 2 \<bar>of_int k :: real\<bar>"
    unfolding ek_def by simp
  ultimately have ek52: "ek \<le> 52" by linarith
  have abs: "\<bar>?x\<bar> = \<bar>of_int k\<bar> * 2 powr of_int j"
    by (simp add: abs_mult)
  have b1: "2 powr of_int (ek + j) \<le> \<bar>?x\<bar>"
    unfolding abs using lo by (simp add: powr_add)
  have b2: "\<bar>?x\<bar> < 2 powr (of_int (ek + j) + 1)"
  proof -
    have "\<bar>of_int k :: real\<bar> * 2 powr of_int j < 2 powr (of_int ek + 1) * 2 powr of_int j"
      using hi by simp
    also have "\<dots> = 2 powr (of_int (ek + j) + 1)"
      by (simp add: powr_add[symmetric] algebra_simps)
    finally show ?thesis unfolding abs .
  qed
  have "(2::real) powr of_int j = 2 powr of_int (52 - ek) * 2 powr (of_int (ek + j) - 52)"
    by (simp add: powr_add[symmetric])
  also have "(2::real) powr of_int (52 - ek) = of_int (2 ^ nat (52 - ek))"
    using ek52 by (intro two_powr_int) simp
  finally have "?x = of_int (k * 2 ^ nat (52 - ek)) * 2 powr (of_int (ek + j) - 52)"
    by simp
  with b1 b2 show ?thesis by (rule fl_exact)
qed

lemma fl_of_int: "\<bar>k\<bar> < 2 ^ 53 \<Longrightarrow> fl (of_int k) = of_int k"
proof (cases "k = 0")
  case True
  then show ?thesis by (simp add: fl_zero)
next
  case False
  assume "\<bar>k\<bar> < 2 ^ 53"
  with False have "fl (of_int k * 2 powr of_int 0) = of_int k * 2 powr of_int 0"
    by (rule fl_dyadic)
  then show ?thesis by simp
qed

lemma fl_numeral: "numeral n < (2::int) ^ 53 \<Longrightarrow> fl (numeral n) = numeral n"
  using fl_of_int[of "numeral n"] by simp

lemma fl_pos:
  assumes "0 < x"
  shows "0 < fl x"
proof -
  define e where "e = \<lfloor>log 2 \<bar>x\<bar>\<rfloor>"
  have x0: "x \<noteq> 0" using assms by simp
  have lo: "2 powr of_int e \<le> \<bar>x\<bar>" and hi: "\<bar>x\<bar> < 2 powr (of_int e + 1)"
    unfolding e_def using binade[OF x0] by simp_all
  let ?u = "2 powr (of_int e - 52) :: real"
  have "2 powr of_int e / ?u \<le> x / ?u"
    using lo assms by (simp add: divide_right_mono)
  moreover have "2 powr of_int e / ?u = (2::real) powr 52"
    by (simp add: powr_diff[symmetric])
  moreover have "(1::real) \<le> 2 powr 52"
    by simp
  ultimately have "1 \<le> x / ?u"
    by linarith
  then have "of_int 1 \<le> x / ?u"
    by simp
  then have "1 \<le> round_half_even (x / ?u)"
    by (rule round_half_even_ge_int)
  then have "0 < of_int (round_half_even (x / ?u)) * ?u"
    by simp
  then show ?thesis
    using fl_in_binade[OF lo hi] by simp
qed

lemma fl_minus: "fl (- x) = - fl x"
proof -
  have "round_half_even (- y) = - round_half_even y" for y
  proof -
    consider "y - of_int \<lfloor>y\<rfloor> = 0" | "0 < y - of_int \<lfloor>y\<rfloor>"
      by (smt (verit) of_int_floor_le)
    then show ?thesis
    proof cases
      case 1
      then have "y = of_int \<lfloor>y\<rfloor>" by simp
      then obtain k where "y = of_int k" ..
      then show ?thesis
        using round_half_even_of_int[of k] round_half_even_of_int[of "- k"] by simp
    next
      case 2
      then have "y \<noteq> of_int \<lfloor>y\<rfloor>"
        by simp
      then have f: "\<lfloor>- y\<rfloor> = - \<lfloor>y\<rfloor> - 1"
        by (simp add: floor_minus ceiling_altdef)
      show ?thesis
        unfolding round_half_even_def Let_def f
        by (auto split: if_splits) (linarith+)?
    qed
  qed
  then show ?thesis
    by (simp add: fl_def Let_def)
qed

lemma fl_nonneg: "0 \<le> x \<Longrightarrow> 0 \<le> fl x"
  using fl_pos[of x] by (cases "x = 0") (simp_all add: fl_zero less_imp_le)

lemma fl_neg: "x < 0 \<Longrightarrow> fl x < 0"
  using fl_pos[of "- x"] by (simp add: fl_minus)

text \<open>Rounding does not cross a representable number.\<close>

lemma fl_le_float:
  assumes "0 < y" and "y \<le> b" and "fl b = b"
  shows "fl y \<le> b"
proof -
  define ey where "ey = \<lfloor>log 2 \<bar>y\<bar>\<rfloor>"
  define eb where "eb = \<lfloor>log 2 \<bar>b\<bar>\<rfloor>"
  have y0: "y \<noteq> 0" and b0: "b \<noteq> 0" and bpos: "0 < b" using assms by simp_all
  have ylo: "2 powr of_int ey \<le> \<bar>y\<bar>" and yhi: "\<bar>y\<bar> < 2 powr (of_int ey + 1)"
    unfolding ey_def using binade[OF y0] by simp_all
  have blo: "2 powr of_int eb \<le> \<bar>b\<bar>" and bhi: "\<bar>b\<bar> < 2 powr (of_int eb + 1)"
    unfolding eb_def using binade[OF b0] by simp_all
  have "log 2 \<bar>y\<bar> \<le> log 2 \<bar>b\<bar>"
    using assms by simp
  then have le: "ey \<le> eb"
    unfolding ey_def eb_def by (rule floor_mono)
  let ?uy = "2 powr (of_int ey - 52) :: real"
  let ?ub = "2 powr (of_int eb - 52) :: real"
  define kb where "kb = round_half_even (b / ?ub)"
  have b_eq: "b = of_int kb * ?ub"
    using fl_in_binade[OF blo bhi] assms(3) by (simp add: kb_def)
  have "?ub = 2 powr of_int (eb - ey) * ?uy"
    by (simp add: powr_add[symmetric])
  also have "(2::real) powr of_int (eb - ey) = of_int (2 ^ nat (eb - ey))"
    using le by (intro two_powr_int) simp
  finally have b_uy: "b / ?uy = of_int (kb * 2 ^ nat (eb - ey))"
    using b_eq by simp
  have "y / ?uy \<le> b / ?uy"
    using assms(2) by (simp add: divide_right_mono)
  then have "round_half_even (y / ?uy) \<le> kb * 2 ^ nat (eb - ey)"
    unfolding b_uy by (rule round_half_even_le_int)
  then have "of_int (round_half_even (y / ?uy)) * ?uy \<le> of_int (kb * 2 ^ nat (eb - ey)) * ?uy"
    by (intro mult_right_mono) (simp_all add: of_int_le_iff del: of_int_mult of_int_power)
  also have "\<dots> = b / ?uy * ?uy"
    unfolding b_uy ..
  also have "\<dots> = b"
    by simp
  finally show ?thesis
    using fl_in_binade[OF ylo yhi] by simp
qed

lemma fl_idem_pos:
  assumes "0 < x"
  shows "fl (fl x) = fl x"
proof -
  define e where "e = \<lfloor>log 2 \<bar>x\<bar>\<rfloor>"
  have x0: "x \<noteq> 0" using assms by simp
  have lo: "2 powr of_int e \<le> \<bar>x\<bar>" and hi: "\<bar>x\<bar> < 2 powr (of_int e + 1)"
    unfolding e_def using binade[OF x0] by simp_all
  let ?u = "2 powr (of_int e - 52) :: real"
  define K where "K = round_half_even (x / ?u)"
  have flx: "fl x = of_int K * ?u"
    using fl_in_binade[OF lo hi] by (simp add: K_def)
  have "2 powr of_int e / ?u \<le> x / ?u"
    using lo assms by (simp add: divide_right_mono)
  moreover have "2 powr of_int e / ?u = (2::real) powr 52"
    by (simp add: powr_diff[symmetric])
  ultimately have "of_int (2 ^ 52) \<le> x / ?u"
    by simp
  then have Klo: "2 ^ 52 \<le> K"
    unfolding K_def by (rule round_half_even_ge_int)
  have "x / ?u < 2 powr (of_int e + 1) / ?u"
    using hi assms by (simp add: divide_strict_right_mono)
  moreover have "2 powr (of_int e + 1) / ?u = (2::real) powr 53"
    by (simp add: powr_diff[symmetric])
  ultimately have "x / ?u \<le> of_int (2 ^ 53)"
    by simp
  then have Khi: "K \<le> 2 ^ 53"
    unfolding K_def by (rule round_half_even_le_int)
  show ?thesis
  proof (cases "K = 2 ^ 53")
    case True
    have p53: "(of_int (2 ^ 53) :: real) = 2 powr 53"
      by simp
    have "fl x = 2 powr 53 * ?u"
      unfolding flx True p53 ..
    also have "\<dots> = 2 powr (53 + (of_int e - 52))"
      by (simp only: powr_add)
    also have "53 + (of_int e - 52) = (of_int (e + 1) :: real)"
      by simp
    finally have eq: "fl x = of_int 1 * 2 powr of_int (e + 1)"
      by simp
    show ?thesis
      unfolding eq by (rule fl_dyadic) simp_all
  next
    case False
    with Khi Klo have "K \<noteq> 0" and "\<bar>K\<bar> < 2 ^ 53"
      by simp_all
    then have "fl (of_int K * 2 powr of_int (e - 52)) = of_int K * 2 powr of_int (e - 52)"
      by (rule fl_dyadic)
    then show ?thesis
      unfolding flx by simp
  qed
qed

lemma fl_idem: "fl (fl x) = fl x"
proof -
  consider "x = 0" | "0 < x" | "x < 0" by linarith
  then show ?thesis
  proof cases
    case 1
    then show ?thesis by (simp add: fl_zero)
  next
    case 2
    then show ?thesis by (rule fl_idem_pos)
  next
    case 3
    then have "fl (fl (- x)) = fl (- x)"
      by (intro fl_idem_pos) simp
    then show ?thesis
      by (simp add: fl_minus)
  qed
qed

text \<open>The nearest float to \<open>360 - 2\<^sup>-\<^sup>4\<^sup>7\<close> is 360: the floats next to 360 are \<open>2\<^sup>-\<^sup>4\<^sup>4\<close> apart.\<close>

lemma fl_just_below_360: "fl (360 - 1 / 2 ^ 47) = 360"
proof -
  let ?y = "360 - 1 / 2 ^ 47 :: real"
  have lo: "2 powr of_int 8 \<le> \<bar>?y\<bar>" and hi: "\<bar>?y\<bar> < 2 powr (of_int 8 + 1)"
    by simp_all
  have u: "(2::real) powr (of_int 8 - 52) = 1 / 2 ^ 44"
    by (simp add: powr_minus_divide)
  have "?y / (1 / 2 ^ 44) = 6333186975989760 - 1 / 8"
    by simp
  moreover have "round_half_even (6333186975989760 - 1 / 8) = 6333186975989760"
    by (simp add: round_half_even_def)
  ultimately have "round_half_even (?y / (1 / 2 ^ 44)) = 6333186975989760"
    by simp
  then show ?thesis
    using fl_in_binade[OF lo hi] unfolding u by simp
qed

lemma fl_minus_2_pow_47: "fl (- (1 / 2 ^ 47)) = - (1 / 2 ^ 47)"
proof -
  have "fl (of_int (- 1) * 2 powr of_int (- 47)) = of_int (- 1) * 2 powr of_int (- 47)"
    by (rule fl_dyadic) simp_all
  then show ?thesis
    by (simp add: powr_minus_divide)
qed

section \<open>Properties of the simulator\<close>

lemma simulate_state:
  "fst (simulate_realistic_telemetry vid state d) =
     (step_direction d
        (step_position (total_seconds (current_time d - st_last_update state))
           (step_temperature (total_seconds (current_time d - st_last_update state))
              (step_fuel (total_seconds (current_time d - st_last_update state))
                 (step_rpm d
                    (step_speed d (total_seconds (current_time d - st_last_update state)) state))))))
       \<lparr>st_last_update := current_time d\<rparr>"
  unfolding simulate_realistic_telemetry_def Let_def by simp

lemma simulate_sample:
  "snd (simulate_realistic_telemetry vid state d) =
     make_telemetry vid (fst (simulate_realistic_telemetry vid state d)) d"
  unfolding simulate_realistic_telemetry_def Let_def by simp

lemma step_speed_fields:
  "st_speed (step_speed d td s) = max 0 (min 140 (fl (st_speed s + fl (speed_noise d * td))))"
  "st_engine_rpm (step_speed d td s) = st_engine_rpm s"
  "st_fuel_level (step_speed d td s) = st_fuel_level s"
  "st_engine_temperature (step_speed d td s) = st_engine_temperature s"
  "st_latitude (step_speed d td s) = st_latitude s"
  "st_longitude (step_speed d td s) = st_longitude s"
  "st_direction (step_speed d td s) = st_direction s"
  "st_last_update (step_speed d td s) = st_last_update s"
  by (simp_all add: step_speed_def Let_def)

lemma step_rpm_fields:
  "st_speed (step_rpm d s) = st_speed s"
  "st_engine_rpm (step_rpm d s) = max 800 (min 6500 (fl (fl (st_speed s * 35) + rpm_noise d)))"
  "st_fuel_level (step_rpm d s) = st_fuel_level s"
  "st_engine_temperature (step_rpm d s) = st_engine_temperature s"
  "st_latitude (step_rpm d s) = st_latitude s"
  "st_longitude (step_rpm d s) = st_longitude s"
  "st_direction (step_rpm d s) = st_direction s"
  "st_last_update (step_rpm d s) = st_last_update s"
  by (simp_all add: step_rpm_def Let_def)

lemma step_fuel_fields:
  "st_speed (step_fuel td s) = st_speed s"
  "st_engine_rpm (step_fuel td s) = st_engine_rpm s"
  "st_fuel_level (step_fuel td s) =
     max 0 (fl (st_fuel_level s -
       fl (fl (fl (st_speed s * fl 0.001) + fl (st_engine_rpm s * fl 0.0001)) * td)))"
  "st_engine_temperature (step_fuel td s) = st_engine_temperature s"
  "st_latitude (step_fuel td s) = st_latitude s"
  "st_longitude (step_fuel td s) = st_longitude s"
  "st_direction (step_fuel td s) = st_direction s"
  "st_last_update (step_fuel td s) = st_last_update s"
  by (simp_all add: step_fuel_def Let_def)

lemma step_temperature_fields:
  "st_speed (step_temperature td s) = st_speed s"
  "st_engine_rpm (step_temperature td s) = st_engine_rpm s"
  "st_fuel_level (step_temperature td s) = st_fuel_level s"
  "st_engine_temperature (step_temperature td s) =
     max 70 (min 120 (fl (st_engine_temperature s +
       fl (fl (fl (fl (90 + fl (fl (st_engine_rpm s - 2000) * fl 0.005))
                   - st_engine_temperature s) * fl 0.1) * td))))"
  "st_latitude (step_temperature td s) = st_latitude s"
  "st_longitude (step_temperature td s) = st_longitude s"
  "st_direction (step_temperature td s) = st_direction s"
  "st_last_update (step_temperature td s) = st_last_update s"
  by (simp_all add: step_temperature_def Let_def)

lemma step_position_fields:
  "st_speed (step_position td s) = st_speed s"
  "st_engine_rpm (step_position td s) = st_engine_rpm s"
  "st_fuel_level (step_position td s) = st_fuel_level s"
  "st_engine_temperature (step_position td s) = st_engine_temperature s"
  "st_latitude (step_position td s) =
     fl (st_latitude s +
       fl (fl (fl (fl (st_speed s * td) / 3600) / 111) * fl (cos (radians (st_direction s)))))"
  "st_longitude (step_position td s) =
     fl (st_longitude s +
       fl (fl (fl (fl (st_speed s * td) / 3600) / 111) * fl (sin (radians (st_direction s)))))"
  "st_direction (step_position td s) = st_direction s"
  "st_last_update (step_position td s) = st_last_update s"
  by (simp_all add: step_position_def Let_def)

lemma step_direction_fields:
  "st_speed (step_direction d s) = st_speed s"
  "st_engine_rpm (step_direction d s) = st_engine_rpm s"
  "st_fuel_level (step_direction d s) = st_fuel_level s"
  "st_engine_temperature (step_direction d s) = st_engine_temperature s"
  "st_latitude (step_direction d s) = st_latitude s"
  "st_longitude (step_direction d s) = st_longitude s"
  "st_direction (step_direction d s) =
     (if turn_roll d < fl 0.1 then py_mod (fl (st_direction s + turn_delta d)) 360
      else st_direction s)"
  "st_last_update (step_direction d s) = st_last_update s"
  by (simp_all add: step_direction_def)

lemmas step_fields = step_speed_fields step_rpm_fields step_fuel_fields step_temperature_fields
  step_position_fields step_direction_fields

text \<open>The new value of each field, in terms of the state before the call.\<close>

lemma simulate_speed:
  "st_speed (fst (simulate_realistic_telemetry vid state d)) =
     max 0 (min 140 (fl (st_speed state +
       fl (speed_noise d * total_seconds (current_time d - st_last_update state)))))"
  by (simp add: simulate_state step_fields)

lemma simulate_engine_rpm:
  "st_engine_rpm (fst (simulate_realistic_telemetry vid state d)) =
     max 800 (min 6500
       (fl (fl (st_speed (fst (simulate_realistic_telemetry vid state d)) * 35) + rpm_noise d)))"
  by (simp add: simulate_state step_fields)

lemma simulate_fuel_level:
  "st_fuel_level (fst (simulate_realistic_telemetry vid state d)) =
     max 0 (fl (st_fuel_level state -
       fl (fl (fl (st_speed (fst (simulate_realistic_telemetry vid state d)) * fl 0.001) +
               fl (st_engine_rpm (fst (simulate_realistic_telemetry vid state d)) * fl 0.0001)) *
           total_seconds (current_time d - st_last_update state))))"
  by (simp add: simulate_state step_fields)

lemma simulate_engine_temperature:
  "st_engine_temperature (fst (simulate_realistic_telemetry vid state d)) =
     max 70 (min 120 (fl (st_engine_temperature state +
       fl (fl (fl (fl (90 +
                 fl (fl (st_engine_rpm (fst (simulate_realistic_telemetry vid state d)) - 2000)
                     * fl 0.005))
               - st_engine_temperature state) * fl 0.1) *
           total_seconds (current_time d - st_last_update state)))))"
  by (simp add: simulate_state step_fields)

lemma simulate_latitude:
  "st_latitude (fst (simulate_realistic_telemetry vid state d)) =
     fl (st_latitude state +
       fl (fl (fl (fl (st_speed (fst (simulate_realistic_telemetry vid state d)) *
                       total_seconds (current_time d - st_last_update state)) / 3600) / 111) *
           fl (cos (radians (st_direction state)))))"
  by (simp add: simulate_state step_fields)

lemma simulate_longitude:
  "st_longitude (fst (simulate_realistic_telemetry vid state d)) =
     fl (st_longitude state +
       fl (fl (fl (fl (st_speed (fst (simulate_realistic_telemetry vid state d)) *
                       total_seconds (current_time d - st_last_update state)) / 3600) / 111) *
           fl (sin (radians (st_direction state)))))"
  by (simp add: simulate_state step_fields)

lemma simulate_direction:
  "st_direction (fst (simulate_realistic_telemetry vid state d)) =
     (if turn_roll d < fl 0.1 then py_mod (fl (st_direction state + turn_delta d)) 360
      else st_direction state)"
  by (simp add: simulate_state step_fields)

lemma simulate_last_update:
  "st_last_update (fst (simulate_realistic_telemetry vid state d)) = current_time d"
  by (simp add: simulate_state)

lemma fl_360: "fl 360 = 360"
  by (rule fl_numeral) simp

lemma fl_tenth_pos: "0 < fl 0.1"
  by (rule fl_pos) simp

lemma fl_ge_minus_float:
  assumes "y < 0" and "- b \<le> y" and "fl b = b"
  shows "- b \<le> fl y"
proof -
  have "fl (- y) \<le> b"
    using assms by (intro fl_le_float) simp_all
  then show ?thesis by (simp add: fl_minus)
qed

text \<open>The exact remainder that \<^const>\<open>fmod\<close> rounds lies strictly between the divisors.\<close>

lemma remainder_360:
  fixes x :: real
  defines "q \<equiv> x - 360 * of_int (if 0 \<le> x / 360 then \<lfloor>x / 360\<rfloor> else \<lceil>x / 360\<rceil>)"
  shows "- 360 < q" and "q < 360"
proof -
  have scale: "a \<le> b \<Longrightarrow> 360 * a \<le> 360 * b" "a < b \<Longrightarrow> 360 * a < 360 * b" for a b :: real
    by simp_all
  have x: "360 * (x / 360) = x" by simp
  have f: "360 * of_int \<lfloor>x / 360\<rfloor> \<le> x" "x < 360 * of_int \<lfloor>x / 360\<rfloor> + 360"
    using scale(1)[OF of_int_floor_le[of "x / 360"]]
      scale(2)[of "x / 360" "of_int \<lfloor>x / 360\<rfloor> + 1"] x
    by (simp_all add: algebra_simps) linarith+
  have c: "x \<le> 360 * of_int \<lceil>x / 360\<rceil>" "360 * of_int \<lceil>x / 360\<rceil> - 360 < x"
    using scale(1)[OF le_of_int_ceiling[of "x / 360"]]
      scale(2)[of "of_int \<lceil>x / 360\<rceil> - 1" "x / 360"] x
    by (simp_all add: algebra_simps) linarith+
  show "- 360 < q"
  proof (cases "0 \<le> x / 360")
    case True
    then have "q = x - 360 * of_int \<lfloor>x / 360\<rfloor>" by (simp add: q_def)
    with f show ?thesis by linarith
  next
    case False
    then have "q = x - 360 * of_int \<lceil>x / 360\<rceil>" by (simp add: q_def)
    with c show ?thesis by linarith
  qed
  show "q < 360"
  proof (cases "0 \<le> x / 360")
    case True
    then have "q = x - 360 * of_int \<lfloor>x / 360\<rfloor>" by (simp add: q_def)
    with f show ?thesis by linarith
  next
    case False
    then have "q = x - 360 * of_int \<lceil>x / 360\<rceil>" by (simp add: q_def)
    with c show ?thesis by linarith
  qed
qed

lemma fmod_360_range: "- 360 \<le> fmod x 360 \<and> fmod x 360 \<le> 360"
proof -
  define q where "q = x - 360 * of_int (if 0 \<le> x / 360 then \<lfloor>x / 360\<rfloor> else \<lceil>x / 360\<rceil>)"
  have r: "fmod x 360 = fl q"
    by (simp add: fmod_def q_def)
  have q: "- 360 < q" "q < 360"
    unfolding q_def by (rule remainder_360)+
  consider "q = 0" | "0 < q" | "q < 0" by linarith
  then show ?thesis
  proof cases
    case 1
    then show ?thesis by (simp add: r fl_zero)
  next
    case 2
    then have "fl q \<le> 360" using q fl_360 by (intro fl_le_float) simp_all
    moreover have "0 < fl q" using 2 by (rule fl_pos)
    ultimately show ?thesis by (simp add: r)
  next
    case 3
    then have "- 360 \<le> fl q" using q fl_360 by (intro fl_ge_minus_float) simp_all
    moreover have "fl q < 0" using 3 by (rule fl_neg)
    ultimately show ?thesis by (simp add: r)
  qed
qed

lemma py_mod_360_range: "0 \<le> py_mod x 360 \<and> py_mod x 360 \<le> 360"
proof -
  let ?r = "fmod x 360"
  have r: "- 360 \<le> ?r" "?r \<le> 360"
    using fmod_360_range[of x] by simp_all
  show ?thesis
  proof (cases "?r < 0")
    case True
    then have eq: "py_mod x 360 = fl (?r + 360)"
      by (simp add: py_mod_def Let_def)
    have "0 \<le> fl (?r + 360)"
      using r by (intro fl_nonneg) simp
    moreover have "fl (?r + 360) \<le> 360"
    proof (cases "?r + 360 = 0")
      case True
      then show ?thesis by (simp add: fl_zero)
    next
      case False
      with r \<open>?r < 0\<close> show ?thesis
        using fl_360 by (intro fl_le_float) simp_all
    qed
    ultimately show ?thesis by (simp add: eq)
  next
    case False
    then have "py_mod x 360 = ?r \<or> py_mod x 360 = 0"
      by (auto simp: py_mod_def Let_def)
    with False r show ?thesis by auto
  qed
qed

lemma fl_fmod: "fl (fmod x m) = fmod x m"
  by (simp add: fmod_def fl_idem)

lemma fl_py_mod: "fl (py_mod x m) = py_mod x m"
  by (simp add: py_mod_def Let_def fl_idem fl_fmod fl_zero)

lemma fl_clamp:
  assumes "fl lo = lo" and "fl hi = hi"
  shows "fl (max lo (min hi (fl x))) = max lo (min hi (fl x))"
  using assms by (simp add: max_def min_def fl_idem)

text \<open>
  Whatever the state before, the state after a step is within the four clamp ranges, its
  heading is within [0, 360] when it was before, and its fields are floats when the
  heading was one.
\<close>

lemma simulate_in_clamp_ranges:
  "in_clamp_ranges (fst (simulate_realistic_telemetry vid state d))"
proof -
  let ?s = "fst (simulate_realistic_telemetry vid state d)"
  have "0 \<le> st_speed ?s \<and> st_speed ?s \<le> 140"
    by (simp add: simulate_speed)
  moreover have "800 \<le> st_engine_rpm ?s \<and> st_engine_rpm ?s \<le> 6500"
    by (subst (1 2) simulate_engine_rpm) simp
  moreover have "0 \<le> st_fuel_level ?s"
    by (subst simulate_fuel_level) simp
  moreover have "70 \<le> st_engine_temperature ?s \<and> st_engine_temperature ?s \<le> 120"
    by (subst (1 2) simulate_engine_temperature) simp
  ultimately show ?thesis
    by (simp add: in_clamp_ranges_def)
qed

lemma simulate_heading_range:
  assumes "0 \<le> st_direction state" and "st_direction state \<le> 360"
  shows "0 \<le> st_direction (fst (simulate_realistic_telemetry vid state d)) \<and>
         st_direction (fst (simulate_realistic_telemetry vid state d)) \<le> 360"
  using assms py_mod_360_range[of "fl (st_direction state + turn_delta d)"]
  by (simp add: simulate_direction)

lemma simulate_float_state:
  assumes "fl (st_direction state) = st_direction state"
  shows "float_state (fst (simulate_realistic_telemetry vid state d))"
proof -
  let ?s = "fst (simulate_realistic_telemetry vid state d)"
  have n: "fl 0 = 0" "fl 140 = 140" "fl 800 = 800" "fl 6500 = 6500" "fl 70 = 70" "fl 120 = 120"
    by (simp_all add: fl_zero fl_numeral)
  have "fl (st_speed ?s) = st_speed ?s"
    by (subst (1 2) simulate_speed) (rule fl_clamp[OF n(1) n(2)])
  moreover have "fl (st_engine_rpm ?s) = st_engine_rpm ?s"
    by (subst (1 2) simulate_engine_rpm) (rule fl_clamp[OF n(3) n(4)])
  moreover have "fl (st_fuel_level ?s) = st_fuel_level ?s"
    by (subst (1 2) simulate_fuel_level) (simp add: max_def fl_idem fl_zero)
  moreover have "fl (st_engine_temperature ?s) = st_engine_temperature ?s"
    by (subst (1 2) simulate_engine_temperature) (rule fl_clamp[OF n(5) n(6)])
  moreover have "fl (st_latitude ?s) = st_latitude ?s"
    by (subst (1 2) simulate_latitude) (rule fl_idem)
  moreover have "fl (st_longitude ?s) = st_longitude ?s"
    by (subst (1 2) simulate_longitude) (rule fl_idem)
  moreover have "fl (st_direction ?s) = st_direction ?s"
    using assms by (simp add: simulate_direction fl_py_mod)
  ultimately show ?thesis
    by (simp add: float_state_def)
qed

lemma initialize_in_clamp_ranges:
  "init_draws_ok d \<Longrightarrow> in_clamp_ranges (initialize_vehicle_state vid d)"
  by (simp add: init_draws_ok_def in_clamp_ranges_def initialize_vehicle_state_def)

lemma initialize_valid: "init_draws_ok d \<Longrightarrow> valid_state (initialize_vehicle_state vid d)"
  by (simp add: init_draws_ok_def valid_state_def in_clamp_ranges_def initialize_vehicle_state_def)

lemma initialize_float_state:
  "init_draws_ok d \<Longrightarrow> float_state (initialize_vehicle_state vid d)"
  by (simp add: init_draws_ok_def float_state_def initialize_vehicle_state_def fl_idem)

lemma state_cruising_valid: "valid_state state_cruising"
  by (simp add: valid_state_def in_clamp_ranges_def state_cruising_def)

lemma state_cruising_float: "float_state state_cruising"
  by (simp add: float_state_def state_cruising_def fl_numeral fl_zero fl_minus)

lemma tiny_left_turn_heading:
  "st_direction (fst (simulate_realistic_telemetry vid state_cruising draws_tiny_left_turn)) = 360"
proof -
  let ?x = "- (1 / 2 ^ 47) :: real"
  have sum: "fl (st_direction state_cruising + turn_delta draws_tiny_left_turn) = ?x"
    using fl_minus_2_pow_47 by (simp add: state_cruising_def draws_tiny_left_turn_def)
  have "\<lceil>?x / 360\<rceil> = 0"
    by (simp add: ceiling_eq_iff)
  then have r: "fmod ?x 360 = ?x"
    using fl_minus_2_pow_47 by (simp add: fmod_def)
  have "py_mod ?x 360 = fl (?x + 360)"
    unfolding py_mod_def r Let_def by simp
  also have "?x + 360 = 360 - 1 / 2 ^ 47"
    by simp
  finally have "py_mod ?x 360 = 360"
    by (simp only: fl_just_below_360)
  moreover have "turn_roll draws_tiny_left_turn < fl 0.1"
    using fl_tenth_pos by (simp add: draws_tiny_left_turn_def)
  ultimately show ?thesis
    by (simp add: simulate_direction sum)
qed

text \<open>
  C5 fails on the heading. The state \<^const>\<open>state_cruising\<close> is in the valid ranges with
  heading 0; one second later a left turn by \<open>2\<^sup>-\<^sup>4\<^sup>7\<close> degrees is drawn. The float remainder
  \<^verbatim>\<open>(0.0 + -2**-47) % 360\<close> is \<open>fl (360 - 2\<^sup>-\<^sup>4\<^sup>7)\<close>, which rounds to exactly 360: the heading
  after the call is 360, outside [0, 360), while the four clamped fields are in their
  ranges.
\<close>

theorem heading_reaches_360:
  "valid_state state_cruising \<and> float_state state_cruising \<and>
   st_last_update state_cruising \<le> current_time draws_tiny_left_turn \<and>
   turn_roll draws_tiny_left_turn = 0 \<and>
   turn_delta draws_tiny_left_turn = - (1 / 2 ^ 47) \<and>
   fl (turn_delta draws_tiny_left_turn) = turn_delta draws_tiny_left_turn \<and>
   st_direction state_cruising = 0 \<and>
   st_direction (fst (simulate_realistic_telemetry ''v1'' state_cruising draws_tiny_left_turn)) = 360 \<and>
   in_clamp_ranges (fst (simulate_realistic_telemetry ''v1'' state_cruising draws_tiny_left_turn)) \<and>
   \<not> valid_state (fst (simulate_realistic_telemetry ''v1'' state_cruising draws_tiny_left_turn))"
proof -
  have "fl (turn_delta draws_tiny_left_turn) = turn_delta draws_tiny_left_turn"
    using fl_minus_2_pow_47 by (simp add: draws_tiny_left_turn_def)
  moreover have "st_last_update state_cruising \<le> current_time draws_tiny_left_turn"
    "turn_roll draws_tiny_left_turn = 0" "turn_delta draws_tiny_left_turn = - (1 / 2 ^ 47)"
    "st_direction state_cruising = 0"
    by (simp_all add: state_cruising_def draws_tiny_left_turn_def)
  moreover have "\<not> valid_state (fst (simulate_realistic_telemetry ''v1'' state_cruising draws_tiny_left_turn))"
    by (simp add: valid_state_def tiny_left_turn_heading)
  ultimately show ?thesis
    using state_cruising_valid state_cruising_float tiny_left_turn_heading
      simulate_in_clamp_ranges
    by simp
qed

lemma zero_dt_speed:
  assumes "in_clamp_ranges state" and "float_state state"
    and "current_time d = st_last_update state"
  shows "st_speed (fst (simulate_realistic_telemetry vid state d)) = st_speed state"
  using assms
  by (simp add: simulate_speed total_seconds_def in_clamp_ranges_def float_state_def fl_zero)

text \<open>
  C6, amended. For every state in the clamp ranges whose fields are floats, a step with no
  elapsed time leaves the fuel level, the engine temperature, the position and also the
  speed unchanged (the speed noise is multiplied by the elapsed time). The engine RPM is
  drawn anew, as the speed times 35 plus the RPM noise, clamped to [800, 6500], and the
  heading is turned as in any other step: the turn has no factor of the elapsed time.
\<close>

theorem zero_dt_step:
  assumes "in_clamp_ranges state" and "float_state state"
    and "current_time d = st_last_update state"
  shows "st_fuel_level (fst (simulate_realistic_telemetry vid state d)) = st_fuel_level state \<and>
         st_engine_temperature (fst (simulate_realistic_telemetry vid state d)) =
           st_engine_temperature state \<and>
         st_speed (fst (simulate_realistic_telemetry vid state d)) = st_speed state \<and>
         st_engine_rpm (fst (simulate_realistic_telemetry vid state d)) =
           max 800 (min 6500 (fl (fl (st_speed state * 35) + rpm_noise d))) \<and>
         st_latitude (fst (simulate_realistic_telemetry vid state d)) = st_latitude state \<and>
         st_longitude (fst (simulate_realistic_telemetry vid state d)) = st_longitude state \<and>
         st_direction (fst (simulate_realistic_telemetry vid state d)) =
           (if turn_roll d < fl 0.1 then py_mod (fl (st_direction state + turn_delta d)) 360
            else st_direction state)"
proof -
  let ?s = "fst (simulate_realistic_telemetry vid state d)"
  have dt: "total_seconds (current_time d - st_last_update state) = 0"
    using assms(3) by (simp add: total_seconds_def fl_zero)
  have speed: "st_speed ?s = st_speed state"
    using assms by (rule zero_dt_speed)
  have fuel: "st_fuel_level ?s = st_fuel_level state"
    using assms(1,2)
    by (subst simulate_fuel_level) (simp add: dt in_clamp_ranges_def float_state_def fl_zero)
  have temp: "st_engine_temperature ?s = st_engine_temperature state"
    using assms(1,2)
    by (subst simulate_engine_temperature)
       (simp add: dt in_clamp_ranges_def float_state_def fl_zero)
  have rpm: "st_engine_rpm ?s = max 800 (min 6500 (fl (fl (st_speed state * 35) + rpm_noise d)))"
    by (subst simulate_engine_rpm) (simp add: speed)
  have lat: "st_latitude ?s = st_latitude state"
    using assms(2) by (subst simulate_latitude) (simp add: dt float_state_def fl_zero)
  have lng: "st_longitude ?s = st_longitude state"
    using assms(2) by (subst simulate_longitude) (simp add: dt float_state_def fl_zero)
  from speed fuel temp rpm lat lng show ?thesis
    by (simp add: simulate_direction)
qed

theorem zero_dt_step_witness:
  "in_clamp_ranges state_cruising \<and> float_state state_cruising \<and>
   current_time draws_zero_dt = st_last_update state_cruising \<and>
   st_fuel_level (fst (simulate_realistic_telemetry ''v1'' state_cruising draws_zero_dt)) = 80 \<and>
   st_engine_temperature (fst (simulate_realistic_telemetry ''v1'' state_cruising draws_zero_dt)) = 90 \<and>
   st_speed (fst (simulate_realistic_telemetry ''v1'' state_cruising draws_zero_dt)) = 70 \<and>
   st_engine_rpm state_cruising = 2000 \<and>
   st_engine_rpm (fst (simulate_realistic_telemetry ''v1'' state_cruising draws_zero_dt)) = 2600 \<and>
   st_direction state_cruising = 0 \<and>
   st_direction (fst (simulate_realistic_telemetry ''v1'' state_cruising draws_zero_dt)) = 10"
proof -
  have pre: "in_clamp_ranges state_cruising"
    using state_cruising_valid by (simp add: valid_state_def)
  have time: "current_time draws_zero_dt = st_last_update state_cruising"
    by (simp add: state_cruising_def draws_zero_dt_def)
  have rpm: "max 800 (min 6500 (fl (fl (st_speed state_cruising * 35) + rpm_noise draws_zero_dt)))
      = (2600 :: real)"
    by (simp add: state_cruising_def draws_zero_dt_def fl_numeral)
  have "fmod 10 360 = 10"
    by (simp add: fmod_def fl_numeral)
  then have "py_mod 10 360 = 10"
    by (simp add: py_mod_def)
  then have dir: "(if turn_roll draws_zero_dt < fl 0.1
        then py_mod (fl (st_direction state_cruising + turn_delta draws_zero_dt)) 360
        else st_direction state_cruising) = 10"
    using fl_tenth_pos by (simp add: state_cruising_def draws_zero_dt_def fl_numeral)
  have vals: "st_fuel_level state_cruising = 80" "st_engine_temperature state_cruising = 90"
    "st_speed state_cruising = 70" "st_engine_rpm state_cruising = 2000"
    "st_direction state_cruising = 0"
    by (simp_all add: state_cruising_def)
  note inst = zero_dt_step [OF pre state_cruising_float time, of "''v1''"]
  let ?s = "fst (simulate_realistic_telemetry ''v1'' state_cruising draws_zero_dt)"
  from inst rpm have c1: "st_engine_rpm ?s = 2600" by simp
  from inst dir have c2: "st_direction ?s = 10" by simp
  from inst vals have c3: "st_fuel_level ?s = 80" "st_engine_temperature ?s = 90" "st_speed ?s = 70"
    by simp_all
  from pre state_cruising_float time c1 c2 c3 vals show ?thesis
    by simp
qed

text \<open>
  C6, as stated, fails for the speed: with no elapsed time the speed never changes,
  whatever the noise drawn (here the largest, 5).
\<close>

theorem zero_dt_speed_counterexample:
  "speed_noise draws_zero_dt = 5 \<and>
   current_time draws_zero_dt = st_last_update state_cruising \<and>
   st_speed (fst (simulate_realistic_telemetry ''v1'' state_cruising draws_zero_dt)) =
     st_speed state_cruising \<and>
   \<not> (\<exists>vid state d. in_clamp_ranges state \<and> float_state state \<and>
         current_time d = st_last_update state \<and>
         st_speed (fst (simulate_realistic_telemetry vid state d)) \<noteq> st_speed state)"
proof -
  have pre: "in_clamp_ranges state_cruising"
    using state_cruising_valid by (simp add: valid_state_def)
  have time: "current_time draws_zero_dt = st_last_update state_cruising"
    by (simp add: state_cruising_def draws_zero_dt_def)
  have noise: "speed_noise draws_zero_dt = 5"
    by (simp add: draws_zero_dt_def)
  from zero_dt_speed [OF pre state_cruising_float time] zero_dt_speed noise time show ?thesis
    by blast
qed

section \<open>Properties of the simulation loop\<close>

lemma simulate_sample_vehicle_id:
  "vehicle_id (snd (simulate_realistic_telemetry vid state d)) = vid"
  by (simp add: simulate_sample make_telemetry_def)

lemma simulate_vehicle_sample_id:
  "vehicle_id (fst (simulate_vehicle env i v w)) = id_v v"
  by (simp add: simulate_vehicle_def Let_def simulate_sample_vehicle_id)

lemma simulate_vehicle_frame:
  "manager (snd (simulate_vehicle env i v w)) = manager w"
  "db_vehicles (snd (simulate_vehicle env i v w)) = db_vehicles w"
  "db_telemetry (snd (simulate_vehicle env i v w)) = db_telemetry w"
  "trace (snd (simulate_vehicle env i v w)) = trace w"
  by (simp_all add: simulate_vehicle_def Let_def)

lemma simulate_vehicle_states_other:
  "vid \<noteq> id_v v \<Longrightarrow> vehicle_states (snd (simulate_vehicle env i v w)) vid = vehicle_states w vid"
  by (simp add: simulate_vehicle_def Let_def)

lemma simulate_vehicle_states_self:
  "vehicle_states (snd (simulate_vehicle env i v w)) (id_v v) \<noteq> None"
  by (simp add: simulate_vehicle_def Let_def)

lemma for_vehicles_char:
  "for_vehicles env i vs acc w = (r, w') \<Longrightarrow>
     manager w' = manager w \<and> db_vehicles w' = db_vehicles w \<and> trace w' = trace w \<and>
     (\<exists>new. db_telemetry w' = db_telemetry w @ new \<and>
        length new \<le> length vs \<and>
        map vehicle_id new = map id_v (take (length new) vs) \<and>
        (\<forall>j < length new. insert_error env (i + j) = None) \<and>
        (\<forall>res. r = Inr res \<longrightarrow>
           fst res = fst acc @ new \<and> snd res = snd acc @ concat (map spec_check new) \<and>
           length new = length vs) \<and>
        (\<forall>e. r = Inl e \<longrightarrow> length new < length vs \<and> insert_error env (i + length new) = Some e) \<and>
        (\<forall>vid. vid \<notin> id_v ` set (take (Suc (length new)) vs) \<longrightarrow>
           vehicle_states w' vid = vehicle_states w vid))"
proof (induction vs arbitrary: i acc w)
  case Nil
  then show ?case by auto
next
  case (Cons v vs)
  obtain all_telemetry all_alerts where acc: "acc = (all_telemetry, all_alerts)"
    by (cases acc)
  define telemetry where "telemetry = fst (simulate_vehicle env i v w)"
  define w1 where "w1 = snd (simulate_vehicle env i v w)"
  have sv: "simulate_vehicle env i v w = (telemetry, w1)"
    by (simp add: telemetry_def w1_def)
  have frame1: "manager w1 = manager w" "db_vehicles w1 = db_vehicles w"
    "db_telemetry w1 = db_telemetry w" "trace w1 = trace w"
    by (simp_all add: w1_def simulate_vehicle_frame)
  have other1: "\<And>vid. vid \<noteq> id_v v \<Longrightarrow> vehicle_states w1 vid = vehicle_states w vid"
    by (simp add: w1_def simulate_vehicle_states_other)
  have tid: "vehicle_id telemetry = id_v v"
    by (simp add: telemetry_def simulate_vehicle_sample_id)
  show ?case
  proof (cases "insert_error env i")
    case (Some e)
    with Cons.prems acc sv have r: "r = Inl e" and w': "w' = w1"
      by simp_all
    have "db_telemetry w' = db_telemetry w @ []"
      by (simp add: w' frame1)
    then show ?thesis
      using r w' frame1 other1 Some by (intro conjI exI[of _ "[]"]) auto
  next
    case None
    define w2 where "w2 = w1\<lparr>db_telemetry := db_telemetry w1 @ [telemetry]\<rparr>"
    from Cons.prems acc sv None
    have rec: "for_vehicles env (Suc i) vs
        (all_telemetry @ [telemetry], all_alerts @ spec_check telemetry) w2 = (r, w')"
      by (simp add: check_eq_spec w2_def)
    from Cons.IH[OF rec] obtain new where
      fr: "manager w' = manager w2" "db_vehicles w' = db_vehicles w2" "trace w' = trace w2" and
      db: "db_telemetry w' = db_telemetry w2 @ new" and
      len: "length new \<le> length vs" and
      ids: "map vehicle_id new = map id_v (take (length new) vs)" and
      ok: "\<forall>j < length new. insert_error env (Suc i + j) = None" and
      succ: "\<forall>res. r = Inr res \<longrightarrow>
               fst res = fst (all_telemetry @ [telemetry], all_alerts @ spec_check telemetry) @ new \<and>
               snd res = snd (all_telemetry @ [telemetry], all_alerts @ spec_check telemetry)
                 @ concat (map spec_check new) \<and>
               length new = length vs" and
      fail: "\<forall>e. r = Inl e \<longrightarrow> length new < length vs \<and>
               insert_error env (Suc i + length new) = Some e" and
      other: "\<forall>vid. vid \<notin> id_v ` set (take (Suc (length new)) vs) \<longrightarrow>
               vehicle_states w' vid = vehicle_states w2 vid"
      by blast
    let ?new = "telemetry # new"
    have a: "db_telemetry w' = db_telemetry w @ ?new"
      by (simp add: db w2_def frame1)
    have b: "length ?new \<le> length (v # vs)"
      using len by simp
    have c: "map vehicle_id ?new = map id_v (take (length ?new) (v # vs))"
      using ids tid by simp
    have d: "\<forall>j < length ?new. insert_error env (i + j) = None"
    proof (intro allI impI)
      fix j assume "j < length ?new"
      then show "insert_error env (i + j) = None"
        using ok None by (cases j) auto
    qed
    have e: "\<forall>res. r = Inr res \<longrightarrow>
               fst res = fst acc @ ?new \<and> snd res = snd acc @ concat (map spec_check ?new) \<and>
               length ?new = length (v # vs)"
      using succ acc by simp
    have f: "\<forall>e. r = Inl e \<longrightarrow> length ?new < length (v # vs) \<and>
               insert_error env (i + length ?new) = Some e"
      using fail by simp
    have g: "\<forall>vid. vid \<notin> id_v ` set (take (Suc (length ?new)) (v # vs)) \<longrightarrow>
               vehicle_states w' vid = vehicle_states w vid"
    proof (intro allI impI)
      fix vid assume "vid \<notin> id_v ` set (take (Suc (length ?new)) (v # vs))"
      then have ne: "vid \<noteq> id_v v" and rest: "vid \<notin> id_v ` set (take (Suc (length new)) vs)"
        by auto
      from other rest have "vehicle_states w' vid = vehicle_states w2 vid" by blast
      also have "\<dots> = vehicle_states w1 vid" by (simp add: w2_def)
      also have "\<dots> = vehicle_states w vid" using ne by (rule other1)
      finally show "vehicle_states w' vid = vehicle_states w vid" .
    qed
    have h: "manager w' = manager w \<and> db_vehicles w' = db_vehicles w \<and> trace w' = trace w"
      using fr by (simp add: w2_def frame1)
    from a b c d e f g h show ?thesis
      by blast
  qed
qed

lemma broadcasts_append: "broadcasts (xs @ ys) = broadcasts xs @ broadcasts ys"
  by (induction xs rule: broadcasts.induct) simp_all

lemma broadcast_returns:
  "\<exists>sent. broadcast dumps send_text self msg = Inr sent"
  unfolding broadcast_def by (simp add: broadcast_loop_result)



text \<open>What one pass does, whatever its outcome.\<close>

lemma tick_char:
  assumes "tick env w = (r, w')"
  shows "manager w' = manager w \<and> db_vehicles w' = db_vehicles w \<and>
     (\<exists>new. db_telemetry w' = db_telemetry w @ new \<and>
        length new \<le> length (find_active (db_vehicles w)) \<and>
        map vehicle_id new = map id_v (take (length new) (find_active (db_vehicles w))) \<and>
        (\<forall>j < length new. insert_error env j = None) \<and>
        (r = Inr () \<longrightarrow> find_error env = None \<and>
           length new = length (find_active (db_vehicles w)) \<and>
           (\<exists>sent. trace w' = trace w @
              [Broadcast \<lparr>type_m = ''telemetry_update'', timestamp_m = message_time env,
                          data_m = new, alerts_m = concat (map spec_check new)\<rparr> sent,
               Sleep 1] \<and>
              broadcast (dumps_json env) (send_text_result env) (manager w)
                \<lparr>type_m = ''telemetry_update'', timestamp_m = message_time env,
                  data_m = new, alerts_m = concat (map spec_check new)\<rparr> = Inr sent)) \<and>
        (\<forall>e. r = Inl e \<longrightarrow> trace w' = trace w \<and>
           (find_error env = Some e \<and> new = [] \<and> w' = w \<or>
            find_error env = None \<and> length new < length (find_active (db_vehicles w)) \<and>
            insert_error env (length new) = Some e)) \<and>
        (\<forall>vid. vid \<notin> id_v ` set (take (Suc (length new)) (find_active (db_vehicles w))) \<longrightarrow>
           vehicle_states w' vid = vehicle_states w vid))"
proof (cases "find_error env")
  case (Some e)
  with assms have "r = Inl e" "w' = w"
    by (simp_all add: tick_def)
  then show ?thesis
    using Some by (intro conjI exI[of _ "[]"]) auto
next
  case None
  obtain r1 w1 where fv: "for_vehicles env 0 (find_active (db_vehicles w)) ([], []) w = (r1, w1)"
    by (cases "for_vehicles env 0 (find_active (db_vehicles w)) ([], []) w")
  from for_vehicles_char[OF fv] obtain new where
    fr: "manager w1 = manager w" "db_vehicles w1 = db_vehicles w" "trace w1 = trace w" and
    db: "db_telemetry w1 = db_telemetry w @ new" and
    len: "length new \<le> length (find_active (db_vehicles w))" and
    ids: "map vehicle_id new = map id_v (take (length new) (find_active (db_vehicles w)))" and
    ok: "\<forall>j < length new. insert_error env (0 + j) = None" and
    succ: "\<forall>res. r1 = Inr res \<longrightarrow> fst res = fst ([]::telemetry_data list, []::telemetry_alert list) @ new \<and>
              snd res = snd ([]::telemetry_data list, []::telemetry_alert list) @ concat (map spec_check new) \<and>
              length new = length (find_active (db_vehicles w))" and
    fail: "\<forall>e. r1 = Inl e \<longrightarrow> length new < length (find_active (db_vehicles w)) \<and>
              insert_error env (0 + length new) = Some e" and
    other: "\<forall>vid. vid \<notin> id_v ` set (take (Suc (length new)) (find_active (db_vehicles w))) \<longrightarrow>
              vehicle_states w1 vid = vehicle_states w vid"
    by blast
  show ?thesis
  proof (cases r1)
    case (Inl e)
    with assms None fv have r: "r = Inl e" and w': "w' = w1"
      by (simp_all add: tick_def)
    show ?thesis
      using r w' fr db len ids ok fail[rule_format, OF Inl] other None
      by (intro conjI exI[of _ new]) auto
  next
    case (Inr res)
    from succ[rule_format, OF Inr] have res: "res = (new, concat (map spec_check new))"
      and full: "length new = length (find_active (db_vehicles w))"
      by (auto simp: prod_eq_iff)
    let ?msg = "\<lparr>type_m = ''telemetry_update'', timestamp_m = message_time env,
                  data_m = new, alerts_m = concat (map spec_check new)\<rparr>"
    obtain sent where sent: "broadcast (dumps_json env) (send_text_result env) (manager w1) ?msg = Inr sent"
      using broadcast_returns[of "dumps_json env" "send_text_result env" "manager w1" ?msg]
      by blast
    from assms None fv Inr res sent
    have r: "r = Inr ()" and w': "w' = w1\<lparr>trace := trace w1 @ [Broadcast ?msg sent, Sleep 1]\<rparr>"
      by (simp_all add: tick_def Let_def)
    show ?thesis
      using r w' fr db len ids ok full other None sent
      by (intro conjI exI[of _ new]) auto
  qed
qed

















lemma tick_insert_failure:
  assumes "find_error env = None"
    and "k < length (find_active (db_vehicles w))"
    and "\<forall>j < k. insert_error env j = None"
    and "insert_error env k = Some e"
  shows "\<exists>w' new.
           tick env w = (Inl e, w') \<and>
           trace w' = trace w \<and> manager w' = manager w \<and>
           db_telemetry w' = db_telemetry w @ new \<and> length new = k \<and>
           map vehicle_id new = map id_v (take k (find_active (db_vehicles w))) \<and>
           (\<forall>vid. vid \<notin> id_v ` set (take (Suc k) (find_active (db_vehicles w))) \<longrightarrow>
              vehicle_states w' vid = vehicle_states w vid)"
proof -
  let ?vs = "find_active (db_vehicles w)"
  obtain r w' where t: "tick env w = (r, w')"
    by (cases "tick env w")
  from tick_char[OF t] obtain new where
    fr: "manager w' = manager w" and
    db: "db_telemetry w' = db_telemetry w @ new" and
    ids: "map vehicle_id new = map id_v (take (length new) ?vs)" and
    ok: "\<forall>j < length new. insert_error env j = None" and
    succ: "r = Inr () \<longrightarrow> length new = length ?vs" and
    fail: "\<forall>e. r = Inl e \<longrightarrow> trace w' = trace w \<and>
           (find_error env = Some e \<and> new = [] \<and> w' = w \<or>
            find_error env = None \<and> length new < length ?vs \<and>
            insert_error env (length new) = Some e)" and
    other: "\<forall>vid. vid \<notin> id_v ` set (take (Suc (length new)) ?vs) \<longrightarrow>
           vehicle_states w' vid = vehicle_states w vid"
    by blast
  have not_ok: "r \<noteq> Inr ()"
  proof
    assume "r = Inr ()"
    with succ have "length new = length ?vs" by simp
    with ok assms(2) have "insert_error env k = None" by simp
    with assms(4) show False by simp
  qed
  then obtain e' where r: "r = Inl e'"
    by (cases r) auto
  from fail r assms(1) have tr: "trace w' = trace w"
    and at: "insert_error env (length new) = Some e'"
    by auto
  have "length new = k"
  proof (rule ccontr)
    assume "length new \<noteq> k"
    then consider "length new < k" | "k < length new" by linarith
    then show False
    proof cases
      case 1
      with assms(3) at show False by simp
    next
      case 2
      with ok assms(4) show False by simp
    qed
  qed
  with at assms(4) have "e' = e" by simp
  with t r tr fr db ids other \<open>length new = k\<close> show ?thesis
    by (intro exI[of _ w'] exI[of _ new]) simp
qed

lemma run_ticks_first_fails:
  "tick (envs i) w = (Inl e, w') \<Longrightarrow> run_ticks (Suc n) envs i w = (Some e, w')"
  by simp

lemma handler_exception:
  assumes "run_ticks n envs 0 (w\<lparr>manager := (manager w)\<lparr>active_connections :=
             active_connections (manager w) @ [websocket]\<rparr>\<rparr>) = (Some e, w')"
    and "e \<noteq> WebSocketDisconnect"
  shows "websocket_telemetry n None envs websocket w = (Inl e, w')"
  using assms by (cases e) (simp_all add: websocket_telemetry_def connect_def)

text \<open>
  C4, amended. An exception of the insert of a sample is not caught in the pass: when
  the insert fails for the vehicle number \<open>k\<close> of a pass (and for none before it), the pass
  ends there with that exception. The samples of the \<open>k\<close> vehicles before it are stored,
  the sample of that vehicle is lost, the vehicles after it are not simulated, nothing is
  broadcast and the loop ends with the exception.
\<close>

theorem insert_failure_ends_tick:
  assumes "find_error env = None"
    and "k < length (find_active (db_vehicles w))"
    and "\<forall>j < k. insert_error env j = None"
    and "insert_error env k = Some e"
  shows "\<exists>w' new.
           tick env w = (Inl e, w') \<and>
           trace w' = trace w \<and>
           db_telemetry w' = db_telemetry w @ new \<and> length new = k \<and>
           map vehicle_id new = map id_v (take k (find_active (db_vehicles w))) \<and>
           (\<forall>vid. vid \<notin> id_v ` set (take (Suc k) (find_active (db_vehicles w))) \<longrightarrow>
              vehicle_states w' vid = vehicle_states w vid) \<and>
           (\<forall>n envs i. envs i = env \<longrightarrow> run_ticks (Suc n) envs i w = (Some e, w'))"
proof -
  from tick_insert_failure[OF assms] obtain w' new where
    t: "tick env w = (Inl e, w')" and
    rest: "trace w' = trace w" "db_telemetry w' = db_telemetry w @ new" "length new = k"
      "map vehicle_id new = map id_v (take k (find_active (db_vehicles w)))"
      "\<forall>vid. vid \<notin> id_v ` set (take (Suc k) (find_active (db_vehicles w))) \<longrightarrow>
              vehicle_states w' vid = vehicle_states w vid"
    by blast
  have "\<forall>n envs i. envs i = env \<longrightarrow> run_ticks (Suc n) envs i w = (Some e, w')"
    using t by (auto intro: run_ticks_first_fails)
  with t rest show ?thesis by blast
qed

lemma world_two_active:
  "find_active (db_vehicles world_two_vehicles) = [vehicle_one, vehicle_two]"
  by (simp add: find_active_def world_two_vehicles_def vehicle_one_def vehicle_two_def)

text \<open>
  C4, as stated, fails: with two active vehicles and a failing insert for the first, the
  pass raises; nothing is broadcast, the second vehicle is not simulated, and the loop
  stops.
\<close>

theorem insert_failure_counterexample:
  "insert_error env_insert_fails 0 = Some (OtherError ''insert failed'') \<and>
   fst (tick env_insert_fails world_two_vehicles) = Inl (OtherError ''insert failed'') \<and>
   trace (snd (tick env_insert_fails world_two_vehicles)) = [] \<and>
   db_telemetry (snd (tick env_insert_fails world_two_vehicles)) = [] \<and>
   vehicle_states (snd (tick env_insert_fails world_two_vehicles)) ''v2'' = None \<and>
   fst (run_ticks 3 (\<lambda>j. env_insert_fails) 0 world_two_vehicles) =
     Some (OtherError ''insert failed'')"
proof -
  let ?e = "OtherError ''insert failed''"
  have h1: "find_error env_insert_fails = None"
    by (simp add: env_insert_fails_def env_ok_def)
  have h2: "0 < length (find_active (db_vehicles world_two_vehicles))"
    by (simp add: world_two_active)
  have h3: "\<forall>j < 0. insert_error env_insert_fails j = None"
    by simp
  have h4: "insert_error env_insert_fails 0 = Some ?e"
    by (simp add: env_insert_fails_def)
  from tick_insert_failure[OF h1 h2 h3 h4] obtain w' new where
    t: "tick env_insert_fails world_two_vehicles = (Inl ?e, w')" and
    tr: "trace w' = trace world_two_vehicles" and
    db: "db_telemetry w' = db_telemetry world_two_vehicles @ new" and
    len: "length new = 0" and
    other: "\<forall>vid. vid \<notin> id_v ` set (take (Suc 0) (find_active (db_vehicles world_two_vehicles))) \<longrightarrow>
              vehicle_states w' vid = vehicle_states world_two_vehicles vid"
    by blast
  have "''v2'' \<notin> id_v ` set (take (Suc 0) (find_active (db_vehicles world_two_vehicles)))"
    unfolding world_two_active by (simp add: vehicle_one_def)
  with other have "vehicle_states w' ''v2'' = vehicle_states world_two_vehicles ''v2''"
    by blast
  then have v2: "vehicle_states w' ''v2'' = None"
    by (simp add: world_two_vehicles_def)
  have run: "run_ticks (Suc 2) (\<lambda>j. env_insert_fails) 0 world_two_vehicles = (Some ?e, w')"
    using t by (intro run_ticks_first_fails) simp
  have three: "(3::nat) = Suc 2" by simp
  have c1: "fst (tick env_insert_fails world_two_vehicles) = Inl ?e"
    and c2: "snd (tick env_insert_fails world_two_vehicles) = w'"
    unfolding t by simp_all
  have c3: "fst (run_ticks 3 (\<lambda>j. env_insert_fails) 0 world_two_vehicles) = Some ?e"
    unfolding three run by simp
  have c4: "trace w' = []"
    unfolding tr by (simp add: world_two_vehicles_def)
  have c5: "db_telemetry w' = []"
    unfolding db using len by (simp add: world_two_vehicles_def)
  show ?thesis
    unfolding c2 using h4 c1 c3 c4 c5 v2 by blast
qed

theorem insert_failure_ends_tick_witness:
  "find_error env_insert_fails = None \<and>
   0 < length (find_active (db_vehicles world_two_vehicles)) \<and>
   insert_error env_insert_fails 0 = Some (OtherError ''insert failed'') \<and>
   fst (tick env_insert_fails world_two_vehicles) = Inl (OtherError ''insert failed'') \<and>
   trace (snd (tick env_insert_fails world_two_vehicles)) = trace world_two_vehicles \<and>
   db_telemetry (snd (tick env_insert_fails world_two_vehicles)) = [] \<and>
   fst (run_ticks 1 (\<lambda>j. env_insert_fails) 0 world_two_vehicles) =
     Some (OtherError ''insert failed'')"
proof -
  let ?e = "OtherError ''insert failed''"
  have h1: "find_error env_insert_fails = None"
    by (simp add: env_insert_fails_def env_ok_def)
  have h2: "0 < length (find_active (db_vehicles world_two_vehicles))"
    by (simp add: world_two_active)
  have h3: "\<forall>j < 0. insert_error env_insert_fails j = None"
    by simp
  have h4: "insert_error env_insert_fails 0 = Some ?e"
    by (simp add: env_insert_fails_def)
  from insert_failure_ends_tick [OF h1 h2 h3 h4] obtain w' new where
    t: "tick env_insert_fails world_two_vehicles = (Inl ?e, w')" and
    tr: "trace w' = trace world_two_vehicles" and
    db: "db_telemetry w' = db_telemetry world_two_vehicles @ new" and
    len: "length new = 0" and
    run: "\<forall>n envs i. envs i = env_insert_fails \<longrightarrow>
            run_ticks (Suc n) envs i world_two_vehicles = (Some ?e, w')"
    by blast
  have r: "run_ticks (Suc 0) (\<lambda>j. env_insert_fails) 0 world_two_vehicles = (Some ?e, w')"
    using run[THEN spec, of 0, THEN spec, of "\<lambda>j. env_insert_fails", THEN spec, of 0]
    by simp
  have one: "(1::nat) = Suc 0" by simp
  have r1: "fst (run_ticks 1 (\<lambda>j. env_insert_fails) 0 world_two_vehicles) = Some ?e"
    unfolding one r by simp
  have c1: "fst (tick env_insert_fails world_two_vehicles) = Inl ?e"
    and c2: "snd (tick env_insert_fails world_two_vehicles) = w'"
    unfolding t by simp_all
  have c5: "db_telemetry w' = []"
    unfolding db using len by (simp add: world_two_vehicles_def)
  show ?thesis
    unfolding c2 using h1 h2 h4 c1 tr c5 r1 by blast
qed

section \<open>The states the mapping holds\<close>

lemma simulate_keeps_valid:
  assumes "stored_state state"
  shows "stored_state (fst (simulate_realistic_telemetry vid state d))"
  using assms simulate_in_clamp_ranges[of vid state d] simulate_float_state[of state vid d]
  by (simp add: stored_state_def float_state_def)

lemma initialize_stored: "init_draws_ok d \<Longrightarrow> stored_state (initialize_vehicle_state vid d)"
  by (simp add: stored_state_def initialize_in_clamp_ranges initialize_float_state)

text \<open>
  Every state the mapping holds is such a state: states are created by
  \<^const>\<open>initialize_vehicle_state\<close> and changed by \<^const>\<open>simulate_realistic_telemetry\<close> only.
\<close>

lemma simulate_vehicle_keeps_valid:
  assumes "init_draws_ok (init_input env i)"
    and "\<And>vid s. vehicle_states w vid = Some s \<Longrightarrow> stored_state s"
    and "vehicle_states (snd (simulate_vehicle env i v w)) vid = Some s"
  shows "stored_state s"
proof (cases "vid = id_v v")
  case False
  with assms(3) have "vehicle_states w vid = Some s"
    by (simp add: simulate_vehicle_states_other)
  then show ?thesis by (rule assms(2))
next
  case True
  let ?before = "case vehicle_states w (id_v v) of
                   None \<Rightarrow> initialize_vehicle_state (id_v v) (init_input env i)
                 | Some existing \<Rightarrow> existing"
  have "stored_state ?before"
    using assms(1,2) by (auto simp: initialize_stored split: option.splits)
  then have "stored_state (fst (simulate_realistic_telemetry (id_v v) ?before (step_input env i)))"
    by (rule simulate_keeps_valid)
  moreover have "s = fst (simulate_realistic_telemetry (id_v v) ?before (step_input env i))"
    using assms(3) True by (simp add: simulate_vehicle_def Let_def)
  ultimately show ?thesis by simp
qed

lemma for_vehicles_keeps_valid:
  assumes "\<And>j. init_draws_ok (init_input env j)"
    and "\<And>vid s. vehicle_states w vid = Some s \<Longrightarrow> stored_state s"
    and "vehicle_states (snd (for_vehicles env i vs acc w)) vid = Some s"
  shows "stored_state s"
  using assms(2,3)
proof (induction vs arbitrary: i acc w)
  case Nil
  then show ?case by simp
next
  case (Cons v vs)
  obtain all_telemetry all_alerts where acc: "acc = (all_telemetry, all_alerts)"
    by (cases acc)
  define telemetry where "telemetry = fst (simulate_vehicle env i v w)"
  define w1 where "w1 = snd (simulate_vehicle env i v w)"
  have sv: "simulate_vehicle env i v w = (telemetry, w1)"
    by (simp add: telemetry_def w1_def)
  have valid1: "\<And>vid s. vehicle_states w1 vid = Some s \<Longrightarrow> stored_state s"
    unfolding w1_def using assms(1) Cons.prems(1) by (rule simulate_vehicle_keeps_valid)
  show ?case
  proof (cases "insert_error env i")
    case (Some e)
    with Cons.prems(2) acc sv have "vehicle_states w1 vid = Some s"
      by simp
    then show ?thesis by (rule valid1)
  next
    case None
    let ?w2 = "w1\<lparr>db_telemetry := db_telemetry w1 @ [telemetry]\<rparr>"
    have valid2: "\<And>vid s. vehicle_states ?w2 vid = Some s \<Longrightarrow> stored_state s"
      using valid1 by simp
    from Cons.prems(2) acc sv None
    have "vehicle_states (snd (for_vehicles env (Suc i) vs
            (all_telemetry @ [telemetry], all_alerts @ spec_check telemetry) ?w2)) vid = Some s"
      by (simp add: check_eq_spec)
    with valid2 show ?thesis by (rule Cons.IH)
  qed
qed

lemma tick_keeps_valid:
  assumes "\<And>j. init_draws_ok (init_input env j)"
    and "\<And>vid s. vehicle_states w vid = Some s \<Longrightarrow> stored_state s"
    and "vehicle_states (snd (tick env w)) vid = Some s"
  shows "stored_state s"
proof (cases "find_error env")
  case (Some e)
  with assms(3) have "vehicle_states w vid = Some s"
    by (simp add: tick_def)
  then show ?thesis by (rule assms(2))
next
  case None
  let ?fv = "for_vehicles env 0 (find_active (db_vehicles w)) ([], []) w"
  have "vehicle_states (snd (tick env w)) = vehicle_states (snd ?fv)"
    using None broadcast_returns[of "dumps_json env" "send_text_result env"]
    by (cases ?fv) (auto simp: tick_def Let_def split: sum.splits prod.splits)
  with assms(3) have "vehicle_states (snd ?fv) vid = Some s" by simp
  with assms(1,2) show ?thesis by (rule for_vehicles_keeps_valid)
qed

lemma run_ticks_keeps_valid:
  assumes "\<And>k j. init_draws_ok (init_input (envs k) j)"
    and "\<And>vid s. vehicle_states w vid = Some s \<Longrightarrow> stored_state s"
    and "vehicle_states (snd (run_ticks n envs k w)) vid = Some s"
  shows "stored_state s"
  using assms(2,3)
proof (induction n arbitrary: k w)
  case 0
  then show ?case by simp
next
  case (Suc n)
  obtain r1 w1 where t: "tick (envs k) w = (r1, w1)"
    by (cases "tick (envs k) w")
  have valid1: "\<And>vid s. vehicle_states w1 vid = Some s \<Longrightarrow> stored_state s"
    using tick_keeps_valid[of "envs k" w] assms(1) Suc.prems(1) t by simp
  show ?case
  proof (cases r1)
    case (Inl e)
    with Suc.prems(2) t have "vehicle_states w1 vid = Some s" by simp
    then show ?thesis by (rule valid1)
  next
    case (Inr u)
    with Suc.prems(2) t have "vehicle_states (snd (run_ticks n envs (Suc k) w1)) vid = Some s"
      by simp
    with valid1 show ?thesis by (rule Suc.IH)
  qed
qed

section \<open>The cap on the vehicles of a pass\<close>









section \<open>Deleting a vehicle\<close>

lemma update_one_ids:
  "map id_v (snd (update_one p (\<lambda>doc. doc\<lparr>is_active := False\<rparr>) docs)) = map id_v docs"
  by (induction docs) simp_all

lemma update_one_deactivates:
  assumes "distinct (map id_v docs)"
    and "fst (update_one (\<lambda>doc. id_v doc = vid) (\<lambda>doc. doc\<lparr>is_active := False\<rparr>) docs) \<noteq> 0"
    and "d \<in> set (snd (update_one (\<lambda>doc. id_v doc = vid) (\<lambda>doc. doc\<lparr>is_active := False\<rparr>) docs))"
    and "id_v d = vid"
  shows "\<not> is_active d"
  using assms
proof (induction docs)
  case Nil
  then show ?case by simp
next
  case (Cons doc docs)
  show ?case
  proof (cases "id_v doc = vid")
    case True
    with Cons.prems(3) have "d = doc\<lparr>is_active := False\<rparr> \<or> d \<in> set docs"
      by simp
    moreover have "d \<notin> set docs"
      using Cons.prems(1,4) True by auto
    ultimately show ?thesis by auto
  next
    case False
    with Cons.prems show ?thesis
      using Cons.IH by auto
  qed
qed

lemma delete_vehicle_success:
  assumes "delete_vehicle None vid w = (Inr msg, w1)"
  shows "fst (update_one (\<lambda>doc. id_v doc = vid) (\<lambda>doc. doc\<lparr>is_active := False\<rparr>) (db_vehicles w)) \<noteq> 0"
    and "db_vehicles w1 =
          snd (update_one (\<lambda>doc. id_v doc = vid) (\<lambda>doc. doc\<lparr>is_active := False\<rparr>) (db_vehicles w))"
    and "vehicle_states w1 = (vehicle_states w)(vid := None)"
    and "manager w1 = manager w" and "db_telemetry w1 = db_telemetry w" and "trace w1 = trace w"
  using assms
  by (auto simp: delete_vehicle_def split: prod.splits if_splits)

lemma deleted_not_fetched:
  assumes "distinct (map id_v (db_vehicles w))"
    and "delete_vehicle None vid w = (Inr msg, w1)"
  shows "vid \<notin> id_v ` set (find_active (db_vehicles w1))"
proof
  assume "vid \<in> id_v ` set (find_active (db_vehicles w1))"
  then obtain d where d: "d \<in> set (find_active (db_vehicles w1))" and id: "id_v d = vid"
    by auto
  from d have mem: "d \<in> set (db_vehicles w1)" and act: "is_active d"
    unfolding find_active_def using set_take_subset[of 100 "filter is_active (db_vehicles w1)"]
    by auto
  from update_one_deactivates[OF assms(1) delete_vehicle_success(1)[OF assms(2)]
      mem[unfolded delete_vehicle_success(2)[OF assms(2)]] id] act
  show False by simp
qed

text \<open>What any number of passes does, whatever their outcome.\<close>

lemma run_ticks_char:
  "run_ticks n envs k w = (r, w') \<Longrightarrow>
     db_vehicles w' = db_vehicles w \<and> manager w' = manager w \<and>
     (\<exists>new evs. db_telemetry w' = db_telemetry w @ new \<and>
        vehicle_id ` set new \<subseteq> id_v ` set (find_active (db_vehicles w)) \<and>
        trace w' = trace w @ evs \<and>
        (\<forall>b \<in> set (broadcasts evs).
           vehicle_id ` set (data_m b) \<subseteq> id_v ` set (find_active (db_vehicles w)))) \<and>
     (\<forall>vid. vid \<notin> id_v ` set (find_active (db_vehicles w)) \<longrightarrow>
        vehicle_states w' vid = vehicle_states w vid)"
proof (induction n arbitrary: k w)
  case 0
  then have "w' = w" by simp
  then show ?case
    by (intro conjI exI[of _ "[]"]) simp_all
next
  case (Suc n)
  let ?A = "id_v ` set (find_active (db_vehicles w))"
  obtain r1 w1 where t: "tick (envs k) w = (r1, w1)"
    by (cases "tick (envs k) w")
  from tick_char[OF t] obtain new1 where
    fr: "manager w1 = manager w" "db_vehicles w1 = db_vehicles w" and
    db: "db_telemetry w1 = db_telemetry w @ new1" and
    ids: "map vehicle_id new1 = map id_v (take (length new1) (find_active (db_vehicles w)))" and
    succ: "r1 = Inr () \<longrightarrow>
           (\<exists>sent. trace w1 = trace w @
              [Broadcast \<lparr>type_m = ''telemetry_update'', timestamp_m = message_time (envs k),
                          data_m = new1, alerts_m = concat (map spec_check new1)\<rparr> sent,
               Sleep 1])" and
    fail: "\<forall>e. r1 = Inl e \<longrightarrow> trace w1 = trace w" and
    other: "\<forall>vid. vid \<notin> id_v ` set (take (Suc (length new1)) (find_active (db_vehicles w))) \<longrightarrow>
           vehicle_states w1 vid = vehicle_states w vid"
    by blast
  have "set (map vehicle_id new1) \<subseteq> set (map id_v (find_active (db_vehicles w)))"
    unfolding ids using set_take_subset[of "length new1" "find_active (db_vehicles w)"] by auto
  then have sub1: "vehicle_id ` set new1 \<subseteq> ?A"
    by simp
  have other1: "\<forall>vid. vid \<notin> ?A \<longrightarrow> vehicle_states w1 vid = vehicle_states w vid"
    using other set_take_subset[of "Suc (length new1)" "find_active (db_vehicles w)"] by blast
  show ?case
  proof (cases r1)
    case (Inl e)
    with Suc.prems t have "w' = w1" by simp
    moreover from Inl fail have "trace w1 = trace w @ []" by simp
    ultimately show ?thesis
      using fr db sub1 other1
      by (intro conjI exI[of _ new1] exI[of _ "[]"]) simp_all
  next
    case (Inr u)
    with Suc.prems t have rec: "run_ticks n envs (Suc k) w1 = (r, w')" by simp
    from Inr succ obtain sent where tr1: "trace w1 = trace w @
              [Broadcast \<lparr>type_m = ''telemetry_update'', timestamp_m = message_time (envs k),
                          data_m = new1, alerts_m = concat (map spec_check new1)\<rparr> sent,
               Sleep 1]"
      by auto
    from Suc.IH[OF rec] fr obtain new evs where
      fr2: "db_vehicles w' = db_vehicles w" "manager w' = manager w" and
      db2: "db_telemetry w' = db_telemetry w1 @ new" and
      sub2: "vehicle_id ` set new \<subseteq> ?A" and
      tr2: "trace w' = trace w1 @ evs" and
      b2: "\<forall>b \<in> set (broadcasts evs). vehicle_id ` set (data_m b) \<subseteq> ?A" and
      other2: "\<forall>vid. vid \<notin> ?A \<longrightarrow> vehicle_states w' vid = vehicle_states w1 vid"
      by auto
    let ?ev1 = "[Broadcast \<lparr>type_m = ''telemetry_update'', timestamp_m = message_time (envs k),
                          data_m = new1, alerts_m = concat (map spec_check new1)\<rparr> sent,
               Sleep 1]"
    have a: "db_telemetry w' = db_telemetry w @ (new1 @ new)"
      by (simp add: db2 db)
    have b: "vehicle_id ` set (new1 @ new) \<subseteq> ?A"
      using sub1 sub2 by auto
    have c: "trace w' = trace w @ (?ev1 @ evs)"
      by (simp add: tr2 tr1)
    have d: "\<forall>b \<in> set (broadcasts (?ev1 @ evs)). vehicle_id ` set (data_m b) \<subseteq> ?A"
      using b2 sub1 by (simp add: broadcasts_append)
    have e: "\<forall>vid. vid \<notin> ?A \<longrightarrow> vehicle_states w' vid = vehicle_states w vid"
      using other1 other2 by simp
    from fr2 a b c d e show ?thesis
      by blast
  qed
qed

text \<open>
  A delete that is served while no pass is under way does remove the vehicle for good.
  When \<^const>\<open>delete_vehicle\<close> succeeds for a vehicle, the state mapping has no entry
  for it any more and all other entries are unchanged (so the mapping shrinks by exactly
  that entry when it had one), the vehicle is no longer among the vehicles a pass
  fetches, and in any number of later passes it gets no state back, no sample of it is
  stored and no batch holds a sample of it. Identifiers are unique in the registry.
\<close>

lemma delete_between_passes:
  assumes "distinct (map id_v (db_vehicles w))"
    and "delete_vehicle None vid w = (Inr msg, w1)"
  shows "vehicle_states w1 vid = None \<and>
         (\<forall>other. other \<noteq> vid \<longrightarrow> vehicle_states w1 other = vehicle_states w other) \<and>
         (finite (dom (vehicle_states w)) \<and> vehicle_states w vid \<noteq> None \<longrightarrow>
            card (dom (vehicle_states w1)) + 1 = card (dom (vehicle_states w))) \<and>
         vid \<notin> id_v ` set (find_active (db_vehicles w1)) \<and>
         (\<forall>n envs k r w2. run_ticks n envs k w1 = (r, w2) \<longrightarrow>
            vehicle_states w2 vid = None \<and>
            (\<exists>new evs. db_telemetry w2 = db_telemetry w1 @ new \<and>
               vid \<notin> vehicle_id ` set new \<and>
               trace w2 = trace w1 @ evs \<and>
               (\<forall>b \<in> set (broadcasts evs). vid \<notin> vehicle_id ` set (data_m b))))"
proof -
  have st: "vehicle_states w1 = (vehicle_states w)(vid := None)"
    using assms(2) by (rule delete_vehicle_success(3))
  have gone: "vehicle_states w1 vid = None"
    by (simp add: st)
  have others: "\<forall>other. other \<noteq> vid \<longrightarrow> vehicle_states w1 other = vehicle_states w other"
    by (simp add: st)
  have shrink: "card (dom (vehicle_states w1)) + 1 = card (dom (vehicle_states w))"
    if "finite (dom (vehicle_states w)) \<and> vehicle_states w vid \<noteq> None"
  proof -
    from that have fin: "finite (dom (vehicle_states w))" and mem: "vid \<in> dom (vehicle_states w)"
      by auto
    have "dom (vehicle_states w1) = dom (vehicle_states w) - {vid}"
      by (simp add: st)
    then have "card (dom (vehicle_states w1)) + 1 = Suc (card (dom (vehicle_states w) - {vid}))"
      by simp
    also have "\<dots> = card (dom (vehicle_states w))"
      using fin mem by (rule card_Suc_Diff1)
    finally show ?thesis .
  qed
  have nf: "vid \<notin> id_v ` set (find_active (db_vehicles w1))"
    using assms by (rule deleted_not_fetched)
  have later: "vehicle_states w2 vid = None \<and>
            (\<exists>new evs. db_telemetry w2 = db_telemetry w1 @ new \<and>
               vid \<notin> vehicle_id ` set new \<and>
               trace w2 = trace w1 @ evs \<and>
               (\<forall>b \<in> set (broadcasts evs). vid \<notin> vehicle_id ` set (data_m b)))"
    if run: "run_ticks n envs k w1 = (r, w2)" for n envs k r w2
  proof -
    from run_ticks_char[OF run] obtain new evs where
      db: "db_telemetry w2 = db_telemetry w1 @ new" and
      sub: "vehicle_id ` set new \<subseteq> id_v ` set (find_active (db_vehicles w1))" and
      tr: "trace w2 = trace w1 @ evs" and
      b: "\<forall>b \<in> set (broadcasts evs).
           vehicle_id ` set (data_m b) \<subseteq> id_v ` set (find_active (db_vehicles w1))" and
      other: "\<forall>vid. vid \<notin> id_v ` set (find_active (db_vehicles w1)) \<longrightarrow>
        vehicle_states w2 vid = vehicle_states w1 vid"
      by blast
    from other nf gone have "vehicle_states w2 vid = None" by simp
    moreover from sub nf have "vid \<notin> vehicle_id ` set new" by blast
    moreover from b nf have "\<forall>b \<in> set (broadcasts evs). vid \<notin> vehicle_id ` set (data_m b)"
      by blast
    ultimately show ?thesis using db tr by blast
  qed
  from gone others shrink nf later show ?thesis
    by blast
qed

section \<open>A delete while a pass is under way\<close>

lemma for_vehicles_await_nothing:
  "for_vehicles_await (\<lambda>i w. w) env i vs acc w = for_vehicles env i vs acc w"
proof (induction vs arbitrary: i acc w)
  case Nil
  show ?case by simp
next
  case (Cons v vs)
  obtain all_telemetry all_alerts where acc: "acc = (all_telemetry, all_alerts)"
    by (cases acc)
  show ?case
    unfolding acc using Cons.IH
    by (simp split: prod.splits option.splits sum.splits)
qed

lemma tick_await_nothing: "tick_await (\<lambda>i w. w) env w = tick env w"
  unfolding tick_await_def tick_def for_vehicles_await_nothing ..

lemma world_one_viewer_fetched:
  "find_active (db_vehicles world_one_viewer) = [vehicle_one, vehicle_two]"
  by (simp add: find_active_def world_one_viewer_def vehicle_one_def vehicle_two_def)

lemma broadcast_env_ok:
  "broadcast (dumps_json env_ok) (send_text_result env_ok) \<lparr>active_connections = [5]\<rparr> msg =
     Inr [(5, ''payload'')]"
  by (simp add: broadcast_def send_json_def try_except_pass_def env_ok_def)

lemma stale_pass_eq:
  "tick_await delete_v2_at_first_await env_ok world_one_viewer =
     (Inr (),
      \<lparr>manager = \<lparr>active_connections = [5]\<rparr>,
       vehicle_states =
         [''v1'' \<mapsto> fst (simulate_realistic_telemetry ''v1'' state_cruising draws_one_second),
          ''v2'' \<mapsto> fst (simulate_realistic_telemetry ''v2''
                           (initialize_vehicle_state ''v2'' draws_initial) draws_one_second)],
       db_vehicles = [vehicle_one, vehicle_two\<lparr>is_active := False\<rparr>],
       db_telemetry =
         [snd (simulate_realistic_telemetry ''v1'' state_cruising draws_one_second),
          snd (simulate_realistic_telemetry ''v2''
                 (initialize_vehicle_state ''v2'' draws_initial) draws_one_second)],
       trace =
         [Broadcast
            \<lparr>type_m = ''telemetry_update'', timestamp_m = 1000000,
             data_m =
               [snd (simulate_realistic_telemetry ''v1'' state_cruising draws_one_second),
                snd (simulate_realistic_telemetry ''v2''
                       (initialize_vehicle_state ''v2'' draws_initial) draws_one_second)],
             alerts_m =
               spec_check (snd (simulate_realistic_telemetry ''v1'' state_cruising draws_one_second)) @
               spec_check (snd (simulate_realistic_telemetry ''v2''
                       (initialize_vehicle_state ''v2'' draws_initial) draws_one_second))\<rparr>
            [(5, ''payload'')],
          Sleep 1]\<rparr>)"
proof -
  let ?r1 = "simulate_realistic_telemetry ''v1'' state_cruising draws_one_second"
  let ?r2 = "simulate_realistic_telemetry ''v2'' (initialize_vehicle_state ''v2'' draws_initial)
               draws_one_second"
  let ?w1 = "\<lparr>manager = \<lparr>active_connections = [5]\<rparr>,
       vehicle_states = [''v1'' \<mapsto> fst ?r1, ''v2'' \<mapsto> state_cruising],
       db_vehicles = [vehicle_one, vehicle_two], db_telemetry = [], trace = []\<rparr>"
  let ?w2 = "\<lparr>manager = \<lparr>active_connections = [5]\<rparr>,
       vehicle_states = [''v1'' \<mapsto> fst ?r1],
       db_vehicles = [vehicle_one, vehicle_two\<lparr>is_active := False\<rparr>],
       db_telemetry = [snd ?r1], trace = []\<rparr>"
  let ?w3 = "\<lparr>manager = \<lparr>active_connections = [5]\<rparr>,
       vehicle_states = [''v1'' \<mapsto> fst ?r1, ''v2'' \<mapsto> fst ?r2],
       db_vehicles = [vehicle_one, vehicle_two\<lparr>is_active := False\<rparr>],
       db_telemetry = [snd ?r1, snd ?r2], trace = []\<rparr>"
  have env: "find_error env_ok = None" "insert_error env_ok i = None"
    "init_input env_ok i = draws_initial" "step_input env_ok i = draws_one_second"
    "message_time env_ok = 1000000" for i
    by (simp_all add: env_ok_def)
  have sv1: "simulate_vehicle env_ok 0 vehicle_one world_one_viewer = (snd ?r1, ?w1)"
    by (simp add: simulate_vehicle_def Let_def env world_one_viewer_def vehicle_one_def)
       (auto simp: fun_eq_iff)
  have del: "(delete_v2_at_first_await 0 ?w1)\<lparr>db_telemetry :=
               db_telemetry (delete_v2_at_first_await 0 ?w1) @ [snd ?r1]\<rparr> = ?w2"
    by (simp add: delete_v2_at_first_await_def delete_vehicle_def vehicle_one_def vehicle_two_def)
  have sv2: "simulate_vehicle env_ok (Suc 0) vehicle_two ?w2 =
      (snd ?r2, ?w3\<lparr>db_telemetry := [snd ?r1]\<rparr>)"
    by (simp add: simulate_vehicle_def Let_def env vehicle_two_def)
  have same: "delete_v2_at_first_await (Suc 0) w = w" for w
    by (simp add: delete_v2_at_first_await_def)
  have fv: "for_vehicles_await delete_v2_at_first_await env_ok 0 [vehicle_one, vehicle_two]
      ([], []) world_one_viewer =
      (Inr ([snd ?r1, snd ?r2], spec_check (snd ?r1) @ spec_check (snd ?r2)), ?w3)"
    by (simp add: sv1 env check_eq_spec del sv2 same)
  show ?thesis
    unfolding tick_await_def world_one_viewer_fetched fv
    by (simp add: env broadcast_env_ok)
qed

text \<open>
  C8 fails when the delete is served while a pass is under way. The registry holds the
  active vehicles \<open>v1\<close> and \<open>v2\<close>, both with a state, and one viewer is connected. Its pass
  fetches both vehicles and, while it awaits the insert of the sample of \<open>v1\<close>, the route
  \<^const>\<open>delete_vehicle\<close> is served for \<open>v2\<close>: it succeeds and removes the state of \<open>v2\<close>. The
  pass goes on with the list it fetched: it finds no state for \<open>v2\<close>, creates a new one,
  and persists and broadcasts a sample of \<open>v2\<close>. After the pass \<open>v2\<close> is inactive in the
  registry, yet the mapping has an entry for it again, as many entries as before the
  delete, and the passes that follow never remove it.
\<close>

theorem delete_during_pass_leaves_state:
  "vehicle_states world_one_viewer ''v2'' = Some state_cruising \<and>
   find_active (db_vehicles world_one_viewer) = [vehicle_one, vehicle_two] \<and>
   delete_v2_at_first_await 0 (snd (simulate_vehicle env_ok 0 vehicle_one world_one_viewer)) =
     snd (delete_vehicle None ''v2'' (snd (simulate_vehicle env_ok 0 vehicle_one world_one_viewer))) \<and>
   fst (delete_vehicle None ''v2'' (snd (simulate_vehicle env_ok 0 vehicle_one world_one_viewer))) =
     Inr ''Vehicle deleted successfully'' \<and>
   vehicle_states
     (snd (delete_vehicle None ''v2'' (snd (simulate_vehicle env_ok 0 vehicle_one world_one_viewer))))
     ''v2'' = None \<and>
   fst (tick_await delete_v2_at_first_await env_ok world_one_viewer) = Inr () \<and>
   find_active (db_vehicles (snd (tick_await delete_v2_at_first_await env_ok world_one_viewer))) =
     [vehicle_one] \<and>
   vehicle_states (snd (tick_await delete_v2_at_first_await env_ok world_one_viewer)) ''v2'' =
     Some (fst (simulate_realistic_telemetry ''v2''
                  (initialize_vehicle_state ''v2'' draws_initial) draws_one_second)) \<and>
   dom (vehicle_states (snd (tick_await delete_v2_at_first_await env_ok world_one_viewer))) =
     dom (vehicle_states world_one_viewer) \<and>
   map vehicle_id (db_telemetry (snd (tick_await delete_v2_at_first_await env_ok world_one_viewer))) =
     [''v1'', ''v2''] \<and>
   map (\<lambda>b. map vehicle_id (data_m b))
     (broadcasts (trace (snd (tick_await delete_v2_at_first_await env_ok world_one_viewer)))) =
     [[''v1'', ''v2'']] \<and>
   vehicle_states
     (snd (run_ticks 3 (\<lambda>j. env_ok) 0
        (snd (tick_await delete_v2_at_first_await env_ok world_one_viewer)))) ''v2'' =
     Some (fst (simulate_realistic_telemetry ''v2''
                  (initialize_vehicle_state ''v2'' draws_initial) draws_one_second))"
proof -
  let ?pass = "tick_await delete_v2_at_first_await env_ok world_one_viewer"
  let ?w1 = "snd (simulate_vehicle env_ok 0 vehicle_one world_one_viewer)"
  let ?s2 = "fst (simulate_realistic_telemetry ''v2''
                  (initialize_vehicle_state ''v2'' draws_initial) draws_one_second)"
  have before: "vehicle_states world_one_viewer ''v2'' = Some state_cruising"
    by (simp add: world_one_viewer_def)
  have req: "delete_v2_at_first_await 0 ?w1 = snd (delete_vehicle None ''v2'' ?w1)"
    by (simp add: delete_v2_at_first_await_def)
  have dbv1: "db_vehicles ?w1 = [vehicle_one, vehicle_two]"
    by (simp add: simulate_vehicle_frame world_one_viewer_def)
  have ok: "fst (delete_vehicle None ''v2'' ?w1) = Inr ''Vehicle deleted successfully''"
    unfolding delete_vehicle_def dbv1
    by (simp add: vehicle_one_def vehicle_two_def)
  then have del: "delete_vehicle None ''v2'' ?w1 =
      (Inr ''Vehicle deleted successfully'', snd (delete_vehicle None ''v2'' ?w1))"
    by (simp add: prod_eq_iff)
  have gone: "vehicle_states (snd (delete_vehicle None ''v2'' ?w1)) ''v2'' = None"
    using delete_vehicle_success(3)[OF del] by simp
  have r: "fst ?pass = Inr ()"
    by (simp add: stale_pass_eq)
  have fetched: "find_active (db_vehicles (snd ?pass)) = [vehicle_one]"
    by (simp add: stale_pass_eq find_active_def vehicle_one_def vehicle_two_def)
  have again: "vehicle_states (snd ?pass) ''v2'' = Some ?s2"
    by (simp add: stale_pass_eq)
  have same_dom: "dom (vehicle_states (snd ?pass)) = dom (vehicle_states world_one_viewer)"
  proof -
    have "dom (vehicle_states world_one_viewer) = {''v1'', ''v2''}"
      by (auto simp: world_one_viewer_def)
    moreover have "dom (vehicle_states (snd ?pass)) = {''v1'', ''v2''}"
      unfolding stale_pass_eq by auto
    ultimately show ?thesis by simp
  qed
  have stored: "map vehicle_id (db_telemetry (snd ?pass)) = [''v1'', ''v2'']"
    by (simp add: stale_pass_eq simulate_sample_vehicle_id)
  have sent: "map (\<lambda>b. map vehicle_id (data_m b)) (broadcasts (trace (snd ?pass))) =
      [[''v1'', ''v2'']]"
    by (simp add: stale_pass_eq simulate_sample_vehicle_id)
  have later: "vehicle_states (snd (run_ticks 3 (\<lambda>j. env_ok) 0 (snd ?pass))) ''v2'' = Some ?s2"
  proof -
    have run: "run_ticks 3 (\<lambda>j. env_ok) 0 (snd ?pass) =
        (fst (run_ticks 3 (\<lambda>j. env_ok) 0 (snd ?pass)),
         snd (run_ticks 3 (\<lambda>j. env_ok) 0 (snd ?pass)))"
      by simp
    have "''v2'' \<notin> id_v ` set (find_active (db_vehicles (snd ?pass)))"
      unfolding fetched by (simp add: vehicle_one_def)
    with run_ticks_char[OF run]
    have "vehicle_states (snd (run_ticks 3 (\<lambda>j. env_ok) 0 (snd ?pass))) ''v2'' =
        vehicle_states (snd ?pass) ''v2''"
      by blast
    with again show ?thesis by simp
  qed
  from before world_one_viewer_fetched req ok gone r fetched again same_dom stored sent later
  show ?thesis by blast
qed

end
